theory Spec2Isabelle
  imports Main
begin

section \<open>Strings as the Python code uses them\<close>

text \<open>
  The program is \<^verbatim>\<open>src/faux-gnome-screensaver.py\<close>, a Python 3 program: it decodes the
  output of a subprocess before it searches it. A \<^verbatim>\<open>str\<close> is modelled as the list of its
  code points, for the code points below 256; a \<^verbatim>\<open>bytes\<close> value is the list of its
  bytes. Whitespace is what \<^verbatim>\<open>str.split()\<close>, \<^verbatim>\<open>str.strip()\<close> and the regular expression
  classes \<^verbatim>\<open>\s\<close> and \<^verbatim>\<open>\S\<close> take as whitespace in a \<^verbatim>\<open>str\<close>: the characters 9 to 13
  (tab, newline, vertical tab, form feed, carriage return), the separators 28 to 31, the
  space, the next-line character 0x85 and the no-break space 0xA0. Below 256 the decimal
  digits are the ASCII digits, and only an ASCII letter matches an ASCII letter when case
  is ignored.
\<close>

definition newline :: string where
  "newline = [CHR 0x0A]"

definition is_space :: "char \<Rightarrow> bool" where
  "is_space c \<longleftrightarrow>
     c \<in> set [CHR 0x09, CHR 0x0A, CHR 0x0B, CHR 0x0C, CHR 0x0D,
              CHR 0x1C, CHR 0x1D, CHR 0x1E, CHR 0x1F, CHR '' '', CHR 0x85, CHR 0xA0]"

text \<open>\<^verbatim>\<open>s.strip()\<close>\<close>

definition strip :: "string \<Rightarrow> string" where
  "strip s = rev (dropWhile is_space (rev (dropWhile is_space s)))"

text \<open>\<^verbatim>\<open>s.split()\<close>: the maximal runs of non-whitespace characters, in order.\<close>

fun split_acc :: "string \<Rightarrow> string \<Rightarrow> string list" where
  "split_acc [] w = (if w = [] then [] else [w])"
| "split_acc (c # cs) w =
     (if is_space c then (if w = [] then split_acc cs [] else w # split_acc cs [])
      else split_acc cs (w @ [c]))"

definition split :: "string \<Rightarrow> string list" where
  "split s = split_acc s []"

text \<open>
  \<^verbatim>\<open>s.split(None, 1)\<close>: at most one split. Leading whitespace is skipped; the first
  word ends at the next whitespace; what follows that whitespace, if anything, is the
  second element, with its trailing whitespace kept.
\<close>

definition split1 :: "string \<Rightarrow> string list" where
  "split1 s =
     (let s1 = dropWhile is_space s in
      if s1 = [] then []
      else (let w = takeWhile (\<lambda>c. \<not> is_space c) s1;
                r = dropWhile is_space (dropWhile (\<lambda>c. \<not> is_space c) s1)
            in if r = [] then [w] else [w, r]))"

text \<open>\<^verbatim>\<open>s.split(':')\<close> for a one-character separator: the pieces between separators.\<close>

fun split_on_acc :: "char \<Rightarrow> string \<Rightarrow> string \<Rightarrow> string list" where
  "split_on_acc sep [] w = [w]"
| "split_on_acc sep (c # cs) w =
     (if c = sep then w # split_on_acc sep cs [] else split_on_acc sep cs (w @ [c]))"

definition split_on :: "char \<Rightarrow> string \<Rightarrow> string list" where
  "split_on sep s = split_on_acc sep s []"

text \<open>Decimal digits and \<^verbatim>\<open>int(s)\<close> on a string of digits.\<close>

definition digit_val :: "char \<Rightarrow> int option" where
  "digit_val c = map_of (zip ''0123456789'' [0, 1, 2, 3, 4, 5, 6, 7, 8, 9]) c"

definition is_digit :: "char \<Rightarrow> bool" where
  "is_digit c \<longleftrightarrow> digit_val c \<noteq> None"

definition int_of_digits :: "string \<Rightarrow> int" where
  "int_of_digits s = foldl (\<lambda>a c. 10 * a + (case digit_val c of Some d \<Rightarrow> d | None \<Rightarrow> 0)) 0 s"

text \<open>Lower case of an ASCII letter, for the case-insensitive matching of \<^verbatim>\<open>strptime\<close>.\<close>

definition lower_char :: "char \<Rightarrow> char" where
  "lower_char c =
     (case map_of (zip ''ABCDEFGHIJKLMNOPQRSTUVWXYZ'' ''abcdefghijklmnopqrstuvwxyz'') c of
        Some l \<Rightarrow> l | None \<Rightarrow> c)"

definition lower :: "string \<Rightarrow> string" where
  "lower s = map lower_char s"

fun index_of :: "'a \<Rightarrow> 'a list \<Rightarrow> nat option" where
  "index_of x [] = None"
| "index_of x (y # ys) = (if x = y then Some 0 else map_option Suc (index_of x ys))"


section \<open>Dates and times of the Python library\<close>

text \<open>
  A naive \<^verbatim>\<open>datetime.datetime\<close> value: the fields of the proleptic Gregorian calendar.
  The constructor accepts only the ranges below and raises \<^verbatim>\<open>ValueError\<close> otherwise
  (\<open>None\<close> here).
\<close>

record datetime =
  year :: int
  month :: int
  day :: int
  hour :: int
  minute :: int
  second :: int
  microsecond :: int

definition is_leap :: "int \<Rightarrow> bool" where
  "is_leap y \<longleftrightarrow> y mod 4 = 0 \<and> (y mod 100 \<noteq> 0 \<or> y mod 400 = 0)"

definition days_in_month :: "int \<Rightarrow> int \<Rightarrow> int" where
  "days_in_month y m =
     (if m = 2 \<and> is_leap y then 29
      else [31, 28, 31, 30, 31, 30, 31, 31, 30, 31, 30, 31] ! nat (m - 1))"

definition days_before_year :: "int \<Rightarrow> int" where
  "days_before_year y = (let y1 = y - 1 in y1 * 365 + y1 div 4 - y1 div 100 + y1 div 400)"

definition days_before_month :: "int \<Rightarrow> int \<Rightarrow> int" where
  "days_before_month y m =
     [0, 31, 59, 90, 120, 151, 181, 212, 243, 273, 304, 334] ! nat (m - 1)
       + (if 2 < m \<and> is_leap y then 1 else 0)"

definition make_datetime ::
  "int \<Rightarrow> int \<Rightarrow> int \<Rightarrow> int \<Rightarrow> int \<Rightarrow> int \<Rightarrow> int \<Rightarrow> datetime option" where
  "make_datetime y mo d h mi s us =
     (if 1 \<le> y \<and> y \<le> 9999 \<and> 1 \<le> mo \<and> mo \<le> 12 \<and> 1 \<le> d \<and> d \<le> days_in_month y mo
         \<and> 0 \<le> h \<and> h \<le> 23 \<and> 0 \<le> mi \<and> mi \<le> 59 \<and> 0 \<le> s \<and> s \<le> 59
         \<and> 0 \<le> us \<and> us \<le> 999999
      then Some \<lparr>year = y, month = mo, day = d, hour = h, minute = mi, second = s,
                 microsecond = us\<rparr>
      else None)"

text \<open>\<^verbatim>\<open>dt.toordinal()\<close>: day number, 1 for 0001-01-01.\<close>

definition toordinal :: "datetime \<Rightarrow> int" where
  "toordinal dt = days_before_year (year dt) + days_before_month (year dt) (month dt) + day dt"

text \<open>
  A \<^verbatim>\<open>datetime.timedelta\<close>: normalised so that \<open>0 \<le> seconds < 86400\<close> and
  \<open>0 \<le> microseconds < 1000000\<close>; the sign is carried by \<open>days\<close> alone.
\<close>

record timedelta =
  days :: int
  seconds :: int
  microseconds :: int

definition make_timedelta :: "int \<Rightarrow> int \<Rightarrow> int \<Rightarrow> timedelta" where
  "make_timedelta d s us =
     (let total = (d * 86400 + s) * 1000000 + us in
      \<lparr>days = total div 86400000000,
       seconds = (total div 1000000) mod 86400,
       microseconds = total mod 1000000\<rparr>)"

text \<open>\<^verbatim>\<open>a - b\<close> on two datetimes.\<close>

definition datetime_sub :: "datetime \<Rightarrow> datetime \<Rightarrow> timedelta" where
  "datetime_sub a b =
     make_timedelta (toordinal a - toordinal b)
       ((second a + minute a * 60 + hour a * 3600) - (second b + minute b * 60 + hour b * 3600))
       (microsecond a - microsecond b)"

text \<open>
  The elapsed time between two datetimes in whole seconds, as a specification value:
  the difference of their distances from 0001-01-01 00:00:00, rounded down.
\<close>

definition datetime_micros :: "datetime \<Rightarrow> int" where
  "datetime_micros dt =
     (((toordinal dt * 24 + hour dt) * 60 + minute dt) * 60 + second dt) * 1000000
       + microsecond dt"

definition elapsed_seconds :: "datetime \<Rightarrow> datetime \<Rightarrow> int" where
  "elapsed_seconds since now = (datetime_micros now - datetime_micros since) div 1000000"

text \<open>
  \<^verbatim>\<open>datetime.strptime\<close> translates the format into a regular expression, matches it
  case-insensitively at the start of the string and rejects unconverted trailing data.
  A numeric directive of at most two digits (\<^verbatim>\<open>%d %H %M %S\<close>) followed by a
  non-digit separator therefore accepts exactly one or two digits in its range.
\<close>

definition two_digit_field :: "int \<Rightarrow> int \<Rightarrow> string \<Rightarrow> int option" where
  "two_digit_field lo hi s =
     (if s \<noteq> [] \<and> length s \<le> 2 \<and> list_all is_digit s
         \<and> lo \<le> int_of_digits s \<and> int_of_digits s \<le> hi
      then Some (int_of_digits s) else None)"

text \<open>
  \<^verbatim>\<open>%H:%M:%S\<close>. The expression admits seconds up to 61, which the datetime constructor
  then refuses.
\<close>

definition parse_hms :: "string \<Rightarrow> (int \<times> int \<times> int) option" where
  "parse_hms s =
     (case split_on CHR '':'' s of
        [h, m, sec] \<Rightarrow>
          (case (two_digit_field 0 23 h, two_digit_field 0 59 m, two_digit_field 0 61 sec) of
             (Some hv, Some mv, Some sv) \<Rightarrow> Some (hv, mv, sv)
           | _ \<Rightarrow> None)
      | _ \<Rightarrow> None)"

text \<open>\<^verbatim>\<open>TIMEOUT_FORMAT = '%H:%M:%S'\<close>; the date defaults to 1900-01-01.\<close>

definition strptime_timeout :: "string \<Rightarrow> datetime option" where
  "strptime_timeout s =
     (case parse_hms s of
        Some (h, m, sec) \<Rightarrow> make_datetime 1900 1 1 h m sec 0
      | None \<Rightarrow> None)"

text \<open>
  \<^verbatim>\<open>DATETIME_FORMAT = '%a %b %d %H:%M:%S %Y'\<close>, with the day and month names of the
  C locale. Each blank of the format matches a non-empty run of whitespace, so the string
  must consist of exactly five words with no whitespace around them. The weekday is
  matched but not compared with the date.
\<close>

definition weekday_names :: "string list" where
  "weekday_names = [''mon'', ''tue'', ''wed'', ''thu'', ''fri'', ''sat'', ''sun'']"

definition month_names :: "string list" where
  "month_names = [''jan'', ''feb'', ''mar'', ''apr'', ''may'', ''jun'',
                  ''jul'', ''aug'', ''sep'', ''oct'', ''nov'', ''dec'']"

definition parse_year :: "string \<Rightarrow> int option" where
  "parse_year s = (if length s = 4 \<and> list_all is_digit s then Some (int_of_digits s) else None)"

definition strptime_datetime :: "string \<Rightarrow> datetime option" where
  "strptime_datetime s =
     (if s \<noteq> strip s then None
      else (case split s of
        [a, b, d, t, y] \<Rightarrow>
          (if lower a \<in> set weekday_names then
             (case (index_of (lower b) month_names, two_digit_field 1 31 d, parse_hms t,
                    parse_year y) of
                (Some mi, Some dv, Some (h, m, sec), Some yv) \<Rightarrow>
                   make_datetime yv (int mi + 1) dv h m sec 0
              | _ \<Rightarrow> None)
           else None)
      | _ \<Rightarrow> None))"


section \<open>The state of \<^verbatim>\<open>XScreenSaverManager\<close>\<close>

text \<open>
  Exceptions are values. An operation returns \<open>Inr\<close> of the new state when it returns
  normally, and \<open>Inl\<close> of the exception together with the state at the moment it was
  raised: Python does not undo the assignments made before a \<^verbatim>\<open>raise\<close>.
\<close>

datatype error = OSError | ValueError | AttributeError | TypeError | UnicodeDecodeError

text \<open>
  What a read from a stream returns, and what the read buffer holds: \<^verbatim>\<open>bytes\<close> from a
  binary stream, \<^verbatim>\<open>str\<close> from a text stream. A \<^verbatim>\<open>bytes\<close> value and a \<^verbatim>\<open>str\<close> value are never
  equal, so the two constructors keep them apart. The pipe that \<^verbatim>\<open>activate\<close> opens to the
  watcher is binary.
\<close>

datatype data = Bytes string | Str string

text \<open>
  What the manager does to the outside: the processes it starts, the
  \<^verbatim>\<open>xscreensaver-command\<close> and \<^verbatim>\<open>xset\<close> calls, the GObject signals it emits, and the
  timers it adds to and removes from the GLib main loop. Logging is not recorded.
\<close>

datatype effect =
    Popen string
  | Command string
  | Xset string
  | Emit_active_changed bool
  | Emit_timeout_changed int
  | Source_remove nat
  | Timeout_add int nat

text \<open>
  The attributes of the object are \<^verbatim>\<open>None\<close> until \<^verbatim>\<open>activate\<close> sets them. The fields
  \<open>timers\<close> and \<open>next_source\<close> are the part of the GLib main loop the manager uses:
  the recurring timers that are armed, each with its source id and its interval in
  milliseconds, and the id the next source will get. \<open>trace\<close> lists the effects so far,
  oldest first.
\<close>

record manager =
  active :: "bool option"
  active_since :: "datetime option"
  locked :: "bool option"
  watcher_read_buf :: "data list option"
  timeout :: "int option"
  manage_dpms :: bool
  inhibit_id :: "nat option"
  timers :: "(nat \<times> int) list"
  next_source :: nat
  trace :: "effect list"

type_synonym result = "error \<times> manager + manager"

definition state_of :: "result \<Rightarrow> manager" where
  "state_of r = (case r of Inl (e, m) \<Rightarrow> m | Inr m \<Rightarrow> m)"

definition DEFAULT_TIMEOUT :: int where
  "DEFAULT_TIMEOUT = 600"

text \<open>\<^verbatim>\<open>__init__(self, no_dpms=False)\<close>, in a main loop with no timer armed.\<close>

definition XScreenSaverManager :: "bool \<Rightarrow> manager" where
  "XScreenSaverManager no_dpms =
     \<lparr>active = None, active_since = None, locked = None, watcher_read_buf = None,
      timeout = None, manage_dpms = \<not> no_dpms, inhibit_id = None,
      timers = [], next_source = 1, trace = []\<rparr>"

definition effect :: "effect \<Rightarrow> manager \<Rightarrow> manager" where
  "effect e m = m\<lparr>trace := trace m @ [e]\<rparr>"

text \<open>\<^verbatim>\<open>self.emit(...)\<close>\<close>

definition emit :: "effect \<Rightarrow> manager \<Rightarrow> manager" where
  "emit e m = effect e m"

text \<open>\<^verbatim>\<open>GLib.source_remove(id)\<close> and \<^verbatim>\<open>GLib.timeout_add(interval, callback)\<close>\<close>

definition source_remove :: "nat \<Rightarrow> manager \<Rightarrow> manager" where
  "source_remove i m = effect (Source_remove i) (m\<lparr>timers := filter (\<lambda>t. fst t \<noteq> i) (timers m)\<rparr>)"

definition timeout_add :: "int \<Rightarrow> manager \<Rightarrow> nat \<times> manager" where
  "timeout_add interval m =
     (next_source m,
      effect (Timeout_add interval (next_source m))
        (m\<lparr>timers := timers m @ [(next_source m, interval)],
           next_source := Suc (next_source m)\<rparr>))"

text \<open>
  \<^verbatim>\<open>_do_command(cmd)\<close> catches \<^verbatim>\<open>OSError\<close> and never raises. Its return value, the
  output of the helper process or \<^verbatim>\<open>None\<close>, is decided by the outside and is an
  argument of the one operation that reads it (\<^verbatim>\<open>activate\<close>).
\<close>

definition do_command :: "string \<Rightarrow> manager \<Rightarrow> manager" where
  "do_command cmd m = effect (Command cmd) m"

text \<open>\<^verbatim>\<open>_set_dpms(enable)\<close> catches every error of the \<^verbatim>\<open>xset\<close> call.\<close>

definition set_dpms :: "bool \<Rightarrow> manager \<Rightarrow> manager" where
  "set_dpms enable m =
     (if manage_dpms m then effect (Xset (if enable then ''+dpms'' else ''-dpms'')) m else m)"

text \<open>Python truth of an attribute that holds a boolean or \<^verbatim>\<open>None\<close>.\<close>

definition truthy :: "bool option \<Rightarrow> bool" where
  "truthy v \<longleftrightarrow> v = Some True"


section \<open>The configuration reader\<close>

text \<open>
  The file is opened in text mode and decoded while it is read. Each step of the
  iteration \<^verbatim>\<open>for line in f\<close> either yields the next line as a \<^verbatim>\<open>str\<close> or raises
  \<^verbatim>\<open>UnicodeDecodeError\<close>, when the bytes read next are not valid in the encoding. An open
  file is the list of what the steps yield, in order.
\<close>

datatype file_item = Line string | Undecodable

text \<open>
  The \<^verbatim>\<open>for line in f\<close> loop of \<^verbatim>\<open>_read_timeout\<close>, with its \<^verbatim>\<open>break\<close>: the second
  argument is the value the variable \<^verbatim>\<open>timeout\<close> holds when the loop starts. The inner
  \<^verbatim>\<open>try\<close> covers \<^verbatim>\<open>strptime\<close> alone, so the \<^verbatim>\<open>UnicodeDecodeError\<close> of the iteration is
  not caught by it.
\<close>

fun scan_lines :: "file_item list \<Rightarrow> int \<Rightarrow> error + int" where
  "scan_lines [] timeout' = Inr timeout'"
| "scan_lines (Undecodable # f) timeout' = Inl UnicodeDecodeError"
| "scan_lines (Line line # f) timeout' =
     (let a = split (strip line) in
      if length a = 2 \<and> a ! 0 = ''timeout:'' then
        (case strptime_timeout (a ! 1) of
           Some dt \<Rightarrow> Inr (second dt + (minute dt * 60) + (hour dt * 3600))
         | None \<Rightarrow> Inr timeout')
      else scan_lines f timeout')"

text \<open>
  The \<^verbatim>\<open>try: f = open(...)\<close> block with its \<^verbatim>\<open>except IOError\<close>. The file is \<open>None\<close> when
  \<^verbatim>\<open>open\<close> raises \<^verbatim>\<open>IOError\<close>, which is caught. \<^verbatim>\<open>UnicodeDecodeError\<close> is a
  \<^verbatim>\<open>ValueError\<close>, not an \<^verbatim>\<open>IOError\<close>, and leaves the block.
\<close>

definition read_options :: "file_item list option \<Rightarrow> error + int" where
  "read_options file =
     (case file of None \<Rightarrow> Inr DEFAULT_TIMEOUT | Some f \<Rightarrow> scan_lines f DEFAULT_TIMEOUT)"


section \<open>The inhibition scheduler\<close>

text \<open>\<^verbatim>\<open>_do_inhibit\<close>, the suppression tick.\<close>

definition do_inhibit :: "manager \<Rightarrow> manager" where
  "do_inhibit m =
     (if \<not> truthy (locked m) then set_dpms False (do_command ''deactivate'' m) else m)"

text \<open>\<^verbatim>\<open>inhibit\<close>: \<^verbatim>\<open>self._timeout - 10\<close> raises \<^verbatim>\<open>TypeError\<close> on \<^verbatim>\<open>None\<close>.\<close>

definition inhibit :: "manager \<Rightarrow> result" where
  "inhibit m =
     (case timeout m of
        None \<Rightarrow> Inl (TypeError, m)
      | Some t \<Rightarrow>
          (let interval = max 20 (t - 10);
               m1 = (case inhibit_id m of Some i \<Rightarrow> source_remove i m | None \<Rightarrow> m);
               m2 = do_inhibit m1;
               (i, m3) = timeout_add (interval * 1000) m2
           in Inr (m3\<lparr>inhibit_id := Some i\<rparr>)))"

definition uninhibit :: "manager \<Rightarrow> manager" where
  "uninhibit m =
     (case inhibit_id m of
        Some i \<Rightarrow> (source_remove i (set_dpms True m))\<lparr>inhibit_id := None\<rparr>
      | None \<Rightarrow> m)"


section \<open>Configuration reloads\<close>

datatype file_monitor_event = CHANGES_DONE_HINT | DELETED | OTHER_EVENT

text \<open>
  \<^verbatim>\<open>_read_timeout(event_type, init=False)\<close>. \<open>file\<close> is what \<^verbatim>\<open>open\<close> finds at the
  moment of the call. An exception of the read leaves the method before anything is
  assigned.
\<close>

definition read_timeout ::
  "file_monitor_event option \<Rightarrow> bool \<Rightarrow> file_item list option \<Rightarrow> manager \<Rightarrow> result" where
  "read_timeout event_type init file m =
     (if event_type = Some CHANGES_DONE_HINT \<or> event_type = Some DELETED \<or> init then
        (case (if event_type = Some CHANGES_DONE_HINT \<or> init then read_options file
               else Inr DEFAULT_TIMEOUT) of
           Inl e \<Rightarrow> Inl (e, m)
         | Inr timeout' \<Rightarrow>
             if Some timeout' \<noteq> timeout m then
               (let m1 = m\<lparr>timeout := Some timeout'\<rparr> in
                case (if inhibit_id m1 \<noteq> None then inhibit m1 else Inr m1) of
                  Inl e \<Rightarrow> Inl e
                | Inr m2 \<Rightarrow> Inr (emit (Emit_timeout_changed timeout') m2))
             else Inr m)
      else Inr m)"


section \<open>The watcher protocol\<close>

text \<open>
  \<^verbatim>\<open>''.join(buf)\<close>: the concatenation of the \<^verbatim>\<open>str\<close> items. It raises \<^verbatim>\<open>TypeError\<close>
  (\<open>None\<close> here) when \<open>buf\<close> is \<^verbatim>\<open>None\<close> or holds an item that is not a \<^verbatim>\<open>str\<close>.
\<close>

fun str_item :: "data \<Rightarrow> string option" where
  "str_item (Str s) = Some s"
| "str_item (Bytes b) = None"

fun join_items :: "data list \<Rightarrow> string option" where
  "join_items [] = Some []"
| "join_items (x # xs) =
     (case (str_item x, join_items xs) of
        (Some s, Some r) \<Rightarrow> Some (s @ r)
      | _ \<Rightarrow> None)"

definition join :: "data list option \<Rightarrow> string option" where
  "join buf = (case buf of None \<Rightarrow> None | Some xs \<Rightarrow> join_items xs)"

text \<open>
  \<^verbatim>\<open>_read_from_watcher\<close>: \<open>c\<close> is what \<^verbatim>\<open>source.read(1)\<close> returns. It is compared with
  the \<^verbatim>\<open>str\<close> \<^verbatim>\<open>'\n'\<close>, which no \<^verbatim>\<open>bytes\<close> value equals. \<^verbatim>\<open>append\<close> on \<^verbatim>\<open>None\<close> raises
  \<^verbatim>\<open>AttributeError\<close>. Unpacking \<^verbatim>\<open>event.split(None, 1)\<close> into two names raises
  \<^verbatim>\<open>ValueError\<close> unless there are exactly two parts, and so does \<^verbatim>\<open>strptime\<close> on a
  string that does not match; neither is caught.
\<close>

definition read_from_watcher :: "data \<Rightarrow> manager \<Rightarrow> result" where
  "read_from_watcher c m =
     (if c \<noteq> Str newline then
        (case watcher_read_buf m of
           None \<Rightarrow> Inl (AttributeError, m)
         | Some buf \<Rightarrow> Inr (m\<lparr>watcher_read_buf := Some (buf @ [c])\<rparr>))
      else
        (case join (watcher_read_buf m) of
           None \<Rightarrow> Inl (TypeError, m)
         | Some event \<Rightarrow>
            (let m1 = m\<lparr>watcher_read_buf := Some []\<rparr>
             in case split1 event of
                  [state, rest] \<Rightarrow>
                    if state = ''BLANK'' \<or> state = ''LOCK'' \<or> state = ''UNBLANK'' then
                      (let active' = (state \<noteq> ''UNBLANK'') in
                       case strptime_datetime (strip rest) of
                         None \<Rightarrow> Inl (ValueError, m1)
                       | Some since \<Rightarrow>
                           (let m2 = m1\<lparr>locked := Some (state = ''LOCK'')\<rparr> in
                            if Some active' \<noteq> active m2 then
                              Inr (emit (Emit_active_changed active')
                                     (m2\<lparr>active := Some active', active_since := Some since\<rparr>))
                            else Inr m2))
                    else Inr m1
                | _ \<Rightarrow> Inl (ValueError, m1))))"

text \<open>
  The main loop calls \<^verbatim>\<open>_read_from_watcher\<close> once for each byte the watcher writes:
  feeding the values read one by one, until the first exception.
\<close>

fun feed :: "data list \<Rightarrow> manager \<Rightarrow> result" where
  "feed [] m = Inr m"
| "feed (c # cs) m =
     (case read_from_watcher c m of Inl e \<Rightarrow> Inl e | Inr m' \<Rightarrow> feed cs m')"

text \<open>The single bytes of a text, as the binary pipe delivers them.\<close>

definition bytes_of :: "string \<Rightarrow> data list" where
  "bytes_of s = map (\<lambda>c. Bytes [c]) s"


section \<open>Activation\<close>

text \<open>
  \<^verbatim>\<open>re.search(r"screen (\S+) since ([^\(]+)", text)\<close>: at the leftmost position where
  the text continues with \<^verbatim>\<open>screen\<close> and a blank, a maximal non-empty word, the text
  \<^verbatim>\<open>since\<close> between two blanks, and a maximal non-empty run of characters other than an
  opening parenthesis. The two groups are returned.
\<close>

definition match_here :: "string \<Rightarrow> (string \<times> string) option" where
  "match_here s =
     (if take 7 s = ''screen '' then
        (let s1 = drop 7 s;
             w = takeWhile (\<lambda>c. \<not> is_space c) s1;
             s2 = dropWhile (\<lambda>c. \<not> is_space c) s1
         in if w \<noteq> [] \<and> take 7 s2 = '' since '' then
              (let d = takeWhile (\<lambda>c. c \<noteq> CHR ''('') (drop 7 s2)
               in if d \<noteq> [] then Some (w, d) else None)
            else None)
      else None)"

fun re_search :: "string \<Rightarrow> (string \<times> string) option" where
  "re_search [] = None"
| "re_search (c # cs) =
     (case match_here (c # cs) of Some g \<Rightarrow> Some g | None \<Rightarrow> re_search cs)"

text \<open>
  What \<^verbatim>\<open>activate\<close> meets outside the object: whether the two processes can be spawned,
  the clock, the return value of \<^verbatim>\<open>_do_command('time')\<close> (\<open>None\<close> when the helper could
  not be run or was killed by a signal, otherwise its output as text) and the options file.
\<close>

record activate_env =
  xss_spawns :: bool
  now :: datetime
  time_output :: "string option"
  watcher_spawns :: bool
  options_file :: "file_item list option"

text \<open>
  The state tracker's part of \<^verbatim>\<open>activate\<close>: the defaults, the \<^verbatim>\<open>time\<close> query and what
  its output sets. \<^verbatim>\<open>.decode\<close> on \<^verbatim>\<open>None\<close> raises \<^verbatim>\<open>AttributeError\<close>, \<^verbatim>\<open>strptime\<close> on
  a string that does not match raises \<^verbatim>\<open>ValueError\<close>; \<^verbatim>\<open>_active\<close> is already assigned
  then.
\<close>

definition query_state :: "activate_env \<Rightarrow> manager \<Rightarrow> result" where
  "query_state env m =
     (let m2 = m\<lparr>active := Some False, active_since := Some (now env),
                  locked := Some False\<rparr>;
          m3 = do_command ''time'' m2
      in case time_output env of
           None \<Rightarrow> Inl (AttributeError, m3)
         | Some text \<Rightarrow>
             (case re_search text of
                None \<Rightarrow> Inr m3
              | Some (state, date_str) \<Rightarrow>
                  (let m4 = m3\<lparr>active := Some (state \<noteq> ''non-blanked'')\<rparr> in
                   case strptime_datetime (strip date_str) of
                     None \<Rightarrow> Inl (ValueError, m4)
                   | Some since \<Rightarrow>
                       Inr (m4\<lparr>active_since := Some since,
                               locked := Some (state = ''locked'')\<rparr>))))"

text \<open>
  \<^verbatim>\<open>activate\<close>: start the daemon, set the state from the query, start the watcher, set
  the timeout to the sentinel \<open>-1\<close> and read the options file. A process that cannot be
  spawned raises \<^verbatim>\<open>OSError\<close>.
\<close>

definition activate :: "activate_env \<Rightarrow> manager \<Rightarrow> result" where
  "activate env m =
     (if \<not> xss_spawns env then Inl (OSError, m)
      else
        (case query_state env (effect (Popen ''xscreensaver'') m) of
           Inl e \<Rightarrow> Inl e
         | Inr m5 \<Rightarrow>
             if \<not> watcher_spawns env then Inl (OSError, m5)
             else
               (let m6 = effect (Popen ''xscreensaver-command -watch'') m5;
                    m7 = m6\<lparr>watcher_read_buf := Some [], timeout := Some (- 1)\<rparr>
                in read_timeout None True (options_file env) m7)))"


section \<open>Commands and queries\<close>

text \<open>The setter of the property \<^verbatim>\<open>active\<close>.\<close>

definition set_active :: "bool \<Rightarrow> manager \<Rightarrow> manager" where
  "set_active v m =
     (if Some v \<noteq> active m then
        do_command (if v then ''activate'' else ''deactivate'') m
      else m)"

text \<open>
  The property \<^verbatim>\<open>active_time\<close>, with the reading of \<^verbatim>\<open>datetime.datetime.now()\<close> as an
  argument. Subtracting \<^verbatim>\<open>None\<close> from a datetime raises \<^verbatim>\<open>TypeError\<close>.
\<close>

definition active_time :: "datetime \<Rightarrow> manager \<Rightarrow> error + int" where
  "active_time now_dt m =
     (if truthy (active m) then
        (case active_since m of
           None \<Rightarrow> Inl TypeError
         | Some since \<Rightarrow>
             (let delta = datetime_sub now_dt since
              in Inr (seconds delta + (days delta * 3600))))
      else Inr 0)"

definition lock :: "manager \<Rightarrow> manager" where
  "lock m = (if \<not> truthy (locked m) then do_command ''lock'' m else m)"

definition simulate_user_activity :: "manager \<Rightarrow> manager" where
  "simulate_user_activity m = do_command ''deactivate'' m"


section \<open>Runs of the manager\<close>

text \<open>
  The calls the main loop and the other services make on an activated manager: a read
  from the watcher (the pipe delivers \<^verbatim>\<open>bytes\<close>; a read that returns a \<^verbatim>\<open>str\<close> is
  admitted as well, so that the states of a text stream are covered too), a notification
  of the file monitor (with the file as it is then), the commands, and a tick of the
  inhibition timer.
\<close>

datatype operation =
    Watcher_read data
  | Options_changed file_monitor_event "file_item list option"
  | Set_active bool
  | Lock
  | Simulate_user_activity
  | Inhibit
  | Uninhibit
  | Timer_tick

fun step :: "operation \<Rightarrow> manager \<Rightarrow> result" where
  "step (Watcher_read c) m = read_from_watcher c m"
| "step (Options_changed e file) m = read_timeout (Some e) False file m"
| "step (Set_active v) m = Inr (set_active v m)"
| "step Lock m = Inr (lock m)"
| "step Simulate_user_activity m = Inr (simulate_user_activity m)"
| "step Inhibit m = inhibit m"
| "step Uninhibit m = Inr (uninhibit m)"
| "step Timer_tick m = Inr (do_inhibit m)"

text \<open>
  The states a manager can be in: after \<^verbatim>\<open>activate\<close> on a fresh object, and after any
  operation from such a state, whether it returned or raised.
\<close>

inductive reachable :: "manager \<Rightarrow> bool" where
  activated: "activate env (XScreenSaverManager no_dpms) = Inr m \<Longrightarrow> reachable m"
| stepped: "reachable m \<Longrightarrow> reachable (state_of (step oper m))"


section \<open>Notions used in the properties\<close>

fun is_timeout_changed :: "effect \<Rightarrow> bool" where
  "is_timeout_changed (Emit_timeout_changed t) = True"
| "is_timeout_changed _ = False"

fun is_active_changed :: "effect \<Rightarrow> bool" where
  "is_active_changed (Emit_active_changed a) = True"
| "is_active_changed _ = False"

text \<open>The effects of an operation: what the trace of \<open>m'\<close> holds beyond that of \<open>m\<close>.\<close>

definition effects_since :: "manager \<Rightarrow> manager \<Rightarrow> effect list" where
  "effects_since m m' = drop (length (trace m)) (trace m')"

text \<open>The timers armed in the main loop are exactly the one \<^verbatim>\<open>_inhibit_id\<close> names, if any.\<close>

definition timers_tracked :: "manager \<Rightarrow> bool" where
  "timers_tracked m \<longleftrightarrow>
     map fst (timers m) = (case inhibit_id m of None \<Rightarrow> [] | Some i \<Rightarrow> [i])"

text \<open>What one suppression tick does in a state: nothing at all under a lock.\<close>

definition tick_effects :: "manager \<Rightarrow> effect list" where
  "tick_effects m =
     (if locked m = Some True then []
      else Command ''deactivate'' # (if manage_dpms m then [Xset ''-dpms''] else []))"

text \<open>The invariant of the state tracker.\<close>

definition locked_implies_active :: "manager \<Rightarrow> bool" where
  "locked_implies_active m \<longleftrightarrow> (locked m = Some True \<longrightarrow> active m = Some True)"

text \<open>What holds of every state of an activated manager.\<close>

definition consistent :: "manager \<Rightarrow> bool" where
  "consistent m \<longleftrightarrow> timers_tracked m \<and> timeout m \<noteq> None \<and> locked_implies_active m"

text \<open>A line of the options file that the reader takes as the timeout line.\<close>

definition timeout_line :: "string \<Rightarrow> bool" where
  "timeout_line line \<longleftrightarrow>
     length (split (strip line)) = 2 \<and> split (strip line) ! 0 = ''timeout:''"

text \<open>
  An item of the open file that ends the loop: a timeout line, or the point where the
  decoding fails.
\<close>

fun deciding_item :: "file_item \<Rightarrow> bool" where
  "deciding_item (Line line) = timeout_line line"
| "deciding_item Undecodable = True"

text \<open>The text \<^verbatim>\<open>HH:MM:SS\<close> of a time of day, two decimal digits each.\<close>

definition digit_char :: "nat \<Rightarrow> char" where
  "digit_char n = ''0123456789'' ! n"

definition two_digits :: "nat \<Rightarrow> string" where
  "two_digits n = [digit_char (n div 10), digit_char (n mod 10)]"

definition hh_mm_ss :: "nat \<Rightarrow> nat \<Rightarrow> nat \<Rightarrow> string" where
  "hh_mm_ss h m s = two_digits h @ '':'' @ two_digits m @ '':'' @ two_digits s"

text \<open>
  The timeout a call of \<^verbatim>\<open>_read_timeout\<close> computes when it acts: from the file on
  \<^verbatim>\<open>CHANGES_DONE_HINT\<close> and at initialisation, the default on \<^verbatim>\<open>DELETED\<close>.
\<close>

definition computed_timeout ::
  "file_monitor_event option \<Rightarrow> bool \<Rightarrow> file_item list option \<Rightarrow> error + int" where
  "computed_timeout event_type init file =
     (if event_type = Some CHANGES_DONE_HINT \<or> init then read_options file
      else Inr DEFAULT_TIMEOUT)"

text \<open>The seconds since midnight that \<^verbatim>\<open>_read_timeout\<close> computes from a parsed time.\<close>

definition seconds_of :: "datetime \<Rightarrow> int" where
  "seconds_of dt = second dt + (minute dt * 60) + (hour dt * 3600)"


section \<open>Example runs\<close>

text \<open>The single characters of a text, as a text stream would deliver them.\<close>

definition chars :: "string \<Rightarrow> data list" where
  "chars s = map (\<lambda>c. Str [c]) s"

definition example_env :: activate_env where
  "example_env =
     \<lparr>xss_spawns = True,
      now = \<lparr>year = 2024, month = 1, day = 1, hour = 9, minute = 0, second = 0,
              microsecond = 0\<rparr>,
      time_output =
        Some ''XScreenSaver 5.15: screen non-blanked since Mon Jan  1 08:00:00 2024 (hack #3)'',
      watcher_spawns = True,
      options_file = Some [Line ''timeout: 00:05:30'']\<rparr>"

text \<open>The manager after \<open>activate example_env\<close> on a fresh object.\<close>

definition example_manager :: manager where
  "example_manager =
     \<lparr>active = Some False,
      active_since = Some \<lparr>year = 2024, month = 1, day = 1, hour = 8, minute = 0, second = 0,
                            microsecond = 0\<rparr>,
      locked = Some False, watcher_read_buf = Some [], timeout = Some 330,
      manage_dpms = True, inhibit_id = None, timers = [], next_source = 1,
      trace = [Popen ''xscreensaver'', Command ''time'', Popen ''xscreensaver-command -watch'',
               Emit_timeout_changed 330]\<rparr>"

text \<open>The same start with the daemon reporting a locked screen.\<close>

definition locked_env :: activate_env where
  "locked_env =
     example_env\<lparr>time_output :=
       Some ''XScreenSaver 5.15: screen locked since Mon Jan  1 08:00:00 2024 (hack #3)''\<rparr>"

definition locked_manager :: manager where
  "locked_manager = example_manager\<lparr>active := Some True, locked := Some True\<rparr>"

text \<open>
  Lines of the watcher: a \<^verbatim>\<open>LOCK\<close> line and a \<^verbatim>\<open>BLANK\<close> line with their timestamps, and
  a \<^verbatim>\<open>BLANK\<close> line whose hour is out of range.
\<close>

definition lock_line :: string where
  "lock_line = ''LOCK Mon Jan 01 10:00:05 2024''"

definition blank_line :: string where
  "blank_line = ''BLANK Mon Jan 01 10:00:00 2024''"

definition bad_hour_line :: string where
  "bad_hour_line = ''BLANK Mon Jan 01 25:00:00 2024''"

text \<open>A manager whose screen has been blanked since 10 o'clock on 1 January 2024.\<close>

definition ten_o_clock :: datetime where
  "ten_o_clock = \<lparr>year = 2024, month = 1, day = 1, hour = 10, minute = 0, second = 0,
                   microsecond = 0\<rparr>"

definition blanked_manager :: manager where
  "blanked_manager = example_manager\<lparr>active := Some True, active_since := Some ten_o_clock\<rparr>"

text \<open>
  An options file that holds a byte sequence which is not valid in the encoding, such as
  a Latin-1 letter in a comment read as UTF-8. A file this short is decoded as a whole
  by the first step of the iteration, which raises, wherever the timeout line stands.
\<close>

definition undecodable_file :: "file_item list option" where
  "undecodable_file = Some [Undecodable]"

section \<open>Facts about the operations\<close>

subsection \<open>The watcher reader, case by case\<close>

lemma split1_shape:
  "split1 s = [] \<or> (\<exists>w. split1 s = [w]) \<or> (\<exists>w r. split1 s = [w, r])"
proof -
  define s1 where "s1 = dropWhile is_space s"
  define w where "w = takeWhile (\<lambda>c. \<not> is_space c) s1"
  define r where "r = dropWhile is_space (dropWhile (\<lambda>c. \<not> is_space c) s1)"
  have eq: "split1 s = (if s1 = [] then [] else if r = [] then [w] else [w, r])"
    unfolding split1_def Let_def s1_def w_def r_def ..
  show ?thesis
  proof (cases "s1 = []")
    case True
    with eq show ?thesis by simp
  next
    case False
    show ?thesis
    proof (cases "r = []")
      case True
      with eq False have "split1 s = [w]" by simp
      then show ?thesis by blast
    next
      case r: False
      with eq False have "split1 s = [w, r]" by simp
      then show ?thesis by blast
    qed
  qed
qed

text \<open>Anything but the \<^verbatim>\<open>str\<close> newline is appended to the buffer.\<close>

lemma read_from_watcher_other:
  assumes "c \<noteq> Str newline"
  shows "read_from_watcher c m =
     (case watcher_read_buf m of
        None \<Rightarrow> Inl (AttributeError, m)
      | Some buf \<Rightarrow> Inr (m\<lparr>watcher_read_buf := Some (buf @ [c])\<rparr>))"
  using assms by (simp add: read_from_watcher_def)

text \<open>A \<^verbatim>\<open>bytes\<close> value is never the \<^verbatim>\<open>str\<close> newline, whatever byte it holds.\<close>

lemma read_from_watcher_bytes:
  assumes "watcher_read_buf m = Some buf"
  shows "read_from_watcher (Bytes b) m = Inr (m\<lparr>watcher_read_buf := Some (buf @ [Bytes b])\<rparr>)"
  using assms by (simp add: read_from_watcher_def)

lemma read_from_watcher_join_fails:
  assumes "join (watcher_read_buf m) = None"
  shows "read_from_watcher (Str newline) m = Inl (TypeError, m)"
  using assms by (simp add: read_from_watcher_def)

lemma read_from_watcher_unpack:
  assumes "join (watcher_read_buf m) = Some event" and "length (split1 event) \<noteq> 2"
  shows "read_from_watcher (Str newline) m =
     Inl (ValueError, m\<lparr>watcher_read_buf := Some []\<rparr>)"
proof -
  from split1_shape [of event] assms(2)
  have "split1 event = [] \<or> (\<exists>w. split1 event = [w])"
    by auto
  then show ?thesis
  proof
    assume "split1 event = []"
    with assms(1) show ?thesis by (simp add: read_from_watcher_def Let_def)
  next
    assume "\<exists>w. split1 event = [w]"
    then obtain w where "split1 event = [w]" ..
    with assms(1) show ?thesis by (simp add: read_from_watcher_def Let_def)
  qed
qed

lemma read_from_watcher_line:
  assumes "join (watcher_read_buf m) = Some event" and "split1 event = [state, rest]"
  shows "read_from_watcher (Str newline) m =
    (if state = ''BLANK'' \<or> state = ''LOCK'' \<or> state = ''UNBLANK'' then
       (case strptime_datetime (strip rest) of
          None \<Rightarrow> Inl (ValueError, m\<lparr>watcher_read_buf := Some []\<rparr>)
        | Some since \<Rightarrow>
            if Some (state \<noteq> ''UNBLANK'') \<noteq> active m then
              Inr (m\<lparr>watcher_read_buf := Some [], locked := Some (state = ''LOCK''),
                     active := Some (state \<noteq> ''UNBLANK''), active_since := Some since,
                     trace := trace m @ [Emit_active_changed (state \<noteq> ''UNBLANK'')]\<rparr>)
            else Inr (m\<lparr>watcher_read_buf := Some [], locked := Some (state = ''LOCK'')\<rparr>))
     else Inr (m\<lparr>watcher_read_buf := Some []\<rparr>))"
  using assms
  by (simp add: read_from_watcher_def Let_def emit_def effect_def split: option.split)

text \<open>
  Every call leaves the manager as it was but for the buffer, or commits a recognised
  line: the lock flag alone, or the lock flag with a new \<open>active\<close> that differs from the
  old one.
\<close>

lemma read_from_watcher_cases:
  assumes buffer: "\<And>b. state_of (read_from_watcher c m) = m\<lparr>watcher_read_buf := b\<rparr> \<Longrightarrow> thesis"
    and lock_only: "\<And>st. st = ''BLANK'' \<or> st = ''LOCK'' \<or> st = ''UNBLANK'' \<Longrightarrow>
        Some (st \<noteq> ''UNBLANK'') = active m \<Longrightarrow>
        state_of (read_from_watcher c m) =
          m\<lparr>watcher_read_buf := Some [], locked := Some (st = ''LOCK'')\<rparr> \<Longrightarrow> thesis"
    and transition: "\<And>st since. st = ''BLANK'' \<or> st = ''LOCK'' \<or> st = ''UNBLANK'' \<Longrightarrow>
        Some (st \<noteq> ''UNBLANK'') \<noteq> active m \<Longrightarrow>
        state_of (read_from_watcher c m) =
          m\<lparr>watcher_read_buf := Some [], locked := Some (st = ''LOCK''),
            active := Some (st \<noteq> ''UNBLANK''), active_since := Some since,
            trace := trace m @ [Emit_active_changed (st \<noteq> ''UNBLANK'')]\<rparr> \<Longrightarrow> thesis"
  shows thesis
proof (cases "c = Str newline")
  case False
  show ?thesis
  proof (cases "watcher_read_buf m")
    case None
    with False have "state_of (read_from_watcher c m) = m\<lparr>watcher_read_buf := None\<rparr>"
      by (simp add: read_from_watcher_other state_of_def)
    then show ?thesis by (rule buffer)
  next
    case (Some buf)
    with False
    have "state_of (read_from_watcher c m) = m\<lparr>watcher_read_buf := Some (buf @ [c])\<rparr>"
      by (simp add: read_from_watcher_other state_of_def)
    then show ?thesis by (rule buffer)
  qed
next
  case True
  show ?thesis
  proof (cases "join (watcher_read_buf m)")
    case None
    with True
    have "state_of (read_from_watcher c m) = m\<lparr>watcher_read_buf := watcher_read_buf m\<rparr>"
      by (simp add: read_from_watcher_join_fails state_of_def)
    then show ?thesis by (rule buffer)
  next
    case (Some event)
    show ?thesis
    proof (cases "length (split1 event) = 2")
      case False
      with Some True have "state_of (read_from_watcher c m) = m\<lparr>watcher_read_buf := Some []\<rparr>"
        by (simp add: read_from_watcher_unpack state_of_def)
      then show ?thesis by (rule buffer)
    next
      case two: True
      with split1_shape [of event]
      obtain st rest where sp: "split1 event = [st, rest]" by auto
      note line = read_from_watcher_line [OF Some sp]
      show ?thesis
      proof (cases "st = ''BLANK'' \<or> st = ''LOCK'' \<or> st = ''UNBLANK''")
        case False
        with line True have "state_of (read_from_watcher c m) = m\<lparr>watcher_read_buf := Some []\<rparr>"
          by (simp add: state_of_def)
        then show ?thesis by (rule buffer)
      next
        case rec: True
        show ?thesis
        proof (cases "strptime_datetime (strip rest)")
          case None
          with line True rec
          have "state_of (read_from_watcher c m) = m\<lparr>watcher_read_buf := Some []\<rparr>"
            by (simp add: state_of_def)
          then show ?thesis by (rule buffer)
        next
          case parsed: (Some since)
          show ?thesis
          proof (cases "Some (st \<noteq> ''UNBLANK'') = active m")
            case same: True
            with line True rec parsed
            have "state_of (read_from_watcher c m) =
                    m\<lparr>watcher_read_buf := Some [], locked := Some (st = ''LOCK'')\<rparr>"
              by (simp add: state_of_def)
            with rec same show ?thesis by (rule lock_only)
          next
            case False
            with line True rec parsed
            have "state_of (read_from_watcher c m) =
                 m\<lparr>watcher_read_buf := Some [], locked := Some (st = ''LOCK''),
                   active := Some (st \<noteq> ''UNBLANK''), active_since := Some since,
                   trace := trace m @ [Emit_active_changed (st \<noteq> ''UNBLANK'')]\<rparr>"
              by (simp add: state_of_def)
            with rec False show ?thesis by (rule transition)
          qed
        qed
      qed
    qed
  qed
qed

lemma read_from_watcher_keeps:
  "timers (state_of (read_from_watcher c m)) = timers m
   \<and> inhibit_id (state_of (read_from_watcher c m)) = inhibit_id m
   \<and> timeout (state_of (read_from_watcher c m)) = timeout m"
  by (rule read_from_watcher_cases [of c m]) simp_all

lemma read_from_watcher_lock:
  assumes "locked_implies_active m"
  shows "locked_implies_active (state_of (read_from_watcher c m))"
proof (rule read_from_watcher_cases [of c m])
  fix b assume "state_of (read_from_watcher c m) = m\<lparr>watcher_read_buf := b\<rparr>"
  with assms show ?thesis by (simp add: locked_implies_active_def)
next
  fix st
  assume "Some (st \<noteq> ''UNBLANK'') = active m"
    and "state_of (read_from_watcher c m) =
          m\<lparr>watcher_read_buf := Some [], locked := Some (st = ''LOCK'')\<rparr>"
  then show ?thesis by (auto simp: locked_implies_active_def)
next
  fix st :: string and since
  assume "st = ''BLANK'' \<or> st = ''LOCK'' \<or> st = ''UNBLANK''"
    and "state_of (read_from_watcher c m) =
          m\<lparr>watcher_read_buf := Some [], locked := Some (st = ''LOCK''),
            active := Some (st \<noteq> ''UNBLANK''), active_since := Some since,
            trace := trace m @ [Emit_active_changed (st \<noteq> ''UNBLANK'')]\<rparr>"
  then show ?thesis by (auto simp: locked_implies_active_def)
qed

subsection \<open>The tick and the scheduler\<close>

lemma do_inhibit_only_trace: "do_inhibit m = m\<lparr>trace := trace m @ tick_effects m\<rparr>"
  by (simp add: do_inhibit_def tick_effects_def truthy_def set_dpms_def do_command_def effect_def)

lemma inhibit_result:
  assumes "timeout m = Some t"
  shows "inhibit m =
    Inr (m\<lparr>inhibit_id := Some (next_source m),
           timers := (case inhibit_id m of None \<Rightarrow> timers m
                      | Some i \<Rightarrow> filter (\<lambda>x. fst x \<noteq> i) (timers m))
                     @ [(next_source m, max 20 (t - 10) * 1000)],
           next_source := Suc (next_source m),
           trace := trace m
                      @ map Source_remove (case inhibit_id m of None \<Rightarrow> [] | Some i \<Rightarrow> [i])
                      @ tick_effects m
                      @ [Timeout_add (max 20 (t - 10) * 1000) (next_source m)]\<rparr>)"
  using assms
  by (simp add: inhibit_def do_inhibit_only_trace tick_effects_def
      source_remove_def timeout_add_def effect_def Let_def split: option.splits)

lemma tracked_filter:
  assumes "timers_tracked m"
  shows "(case inhibit_id m of None \<Rightarrow> timers m
          | Some i \<Rightarrow> filter (\<lambda>x. fst x \<noteq> i) (timers m)) = []"
proof (cases "inhibit_id m")
  case None
  with assms show ?thesis by (simp add: timers_tracked_def)
next
  case (Some i)
  with assms have "map fst (timers m) = [i]" by (simp add: timers_tracked_def)
  then obtain x where "timers m = [x]" and "fst x = i" by auto
  with Some show ?thesis by simp
qed

lemma inhibit_tracked:
  assumes "timeout m = Some t" and "timers_tracked m"
  shows "inhibit m =
    Inr (m\<lparr>inhibit_id := Some (next_source m),
           timers := [(next_source m, max 20 (t - 10) * 1000)],
           next_source := Suc (next_source m),
           trace := trace m @ map (Source_remove \<circ> fst) (timers m) @ tick_effects m
                      @ [Timeout_add (max 20 (t - 10) * 1000) (next_source m)]\<rparr>)"
proof -
  have "map (Source_remove \<circ> fst) (timers m) = map Source_remove (map fst (timers m))"
    by simp
  also have "\<dots> = map Source_remove (case inhibit_id m of None \<Rightarrow> [] | Some i \<Rightarrow> [i])"
    using assms(2) by (simp only: timers_tracked_def)
  finally show ?thesis
    using inhibit_result [OF assms(1)] tracked_filter [OF assms(2)] by simp
qed

lemma uninhibit_tracked:
  assumes "timers_tracked m"
  shows "timers_tracked (uninhibit m)"
proof (cases "inhibit_id m")
  case None
  with assms show ?thesis by (simp add: uninhibit_def)
next
  case (Some i)
  with tracked_filter [OF assms] show ?thesis
    by (simp add: uninhibit_def timers_tracked_def source_remove_def set_dpms_def effect_def)
qed

subsection \<open>Configuration reloads\<close>

lemma inhibit_returns:
  "\<exists>m2. inhibit (m\<lparr>timeout := Some t\<rparr>) = Inr m2"
  by (simp add: inhibit_result)

lemma read_timeout_ignored:
  "event_type \<noteq> Some CHANGES_DONE_HINT \<Longrightarrow> event_type \<noteq> Some DELETED \<Longrightarrow>
   read_timeout event_type False opts m = Inr m"
  by (simp add: read_timeout_def)

lemma read_timeout_unfold:
  assumes "event_type = Some CHANGES_DONE_HINT \<or> event_type = Some DELETED \<or> init"
  shows "read_timeout event_type init opts m =
     (case computed_timeout event_type init opts of
        Inl e \<Rightarrow> Inl (e, m)
      | Inr t \<Rightarrow>
          if Some t \<noteq> timeout m then
            (case (if inhibit_id m \<noteq> None then inhibit (m\<lparr>timeout := Some t\<rparr>)
                   else Inr (m\<lparr>timeout := Some t\<rparr>)) of
               Inl e \<Rightarrow> Inl e
             | Inr m2 \<Rightarrow> Inr (emit (Emit_timeout_changed t) m2))
          else Inr m)"
proof -
  have eq: "(if event_type = Some CHANGES_DONE_HINT \<or> init then read_options opts
             else Inr DEFAULT_TIMEOUT) = computed_timeout event_type init opts"
    by (simp add: computed_timeout_def)
  show ?thesis
  proof (cases "computed_timeout event_type init opts")
    case (Inl e)
    with assms show ?thesis
      unfolding read_timeout_def eq by simp
  next
    case (Inr t)
    with assms show ?thesis
      unfolding read_timeout_def eq by (simp add: Let_def)
  qed
qed

text \<open>An exception of the read leaves \<^verbatim>\<open>_read_timeout\<close> with the manager as it was.\<close>

lemma read_timeout_raises:
  assumes "event_type = Some CHANGES_DONE_HINT \<or> event_type = Some DELETED \<or> init"
    and "computed_timeout event_type init opts = Inl e"
  shows "read_timeout event_type init opts m = Inl (e, m)"
  by (simp add: read_timeout_unfold [OF assms(1)] assms(2))

lemma read_timeout_acts:
  assumes "event_type = Some CHANGES_DONE_HINT \<or> event_type = Some DELETED \<or> init"
    and "computed_timeout event_type init opts = Inr t"
  shows "read_timeout event_type init opts m =
     (if Some t = timeout m then Inr m
      else if inhibit_id m = None
      then Inr (emit (Emit_timeout_changed t) (m\<lparr>timeout := Some t\<rparr>))
      else Inr (emit (Emit_timeout_changed t) (state_of (inhibit (m\<lparr>timeout := Some t\<rparr>)))))"
proof -
  obtain m2 where m2: "inhibit (m\<lparr>timeout := Some t\<rparr>) = Inr m2"
    using inhibit_returns [where m = m and t = t] ..
  have "read_timeout event_type init opts m =
      (if Some t \<noteq> timeout m then
         (case (if inhibit_id m \<noteq> None then inhibit (m\<lparr>timeout := Some t\<rparr>)
                else Inr (m\<lparr>timeout := Some t\<rparr>)) of
            Inl e \<Rightarrow> Inl e
          | Inr m2 \<Rightarrow> Inr (emit (Emit_timeout_changed t) m2))
       else Inr m)"
    by (simp add: read_timeout_unfold [OF assms(1)] assms(2))
  also have "\<dots> = (if Some t = timeout m then Inr m
      else if inhibit_id m = None
      then Inr (emit (Emit_timeout_changed t) (m\<lparr>timeout := Some t\<rparr>))
      else Inr (emit (Emit_timeout_changed t) (state_of (inhibit (m\<lparr>timeout := Some t\<rparr>)))))"
    by (simp add: m2 state_of_def)
  finally show ?thesis .
qed

section \<open>The suppression tick\<close>

lemma effects_since_append: "trace m' = trace m @ es \<Longrightarrow> effects_since m m' = es"
  by (simp add: effects_since_def)

text \<open>
  Claim C5. A suppression tick adds nothing to the trace when \<open>locked\<close> is true, and
  otherwise the \<^verbatim>\<open>deactivate\<close> command followed, when DPMS is managed, by \<^verbatim>\<open>xset -dpms\<close>;
  it changes nothing else, and under a lock it leaves the manager as it is. The tick of
  the timer is this function, and the immediate tick inside \<^verbatim>\<open>inhibit\<close> has the same
  effects, between the removal of the old timer and the arming of the new one.
\<close>

theorem tick_skipped_when_locked:
  "effects_since m (do_inhibit m) =
     (if locked m = Some True then []
      else Command ''deactivate'' # (if manage_dpms m then [Xset ''-dpms''] else []))
   \<and> do_inhibit m = m\<lparr>trace := trace (do_inhibit m)\<rparr>
   \<and> (locked m = Some True \<longrightarrow> do_inhibit m = m)
   \<and> step Timer_tick m = Inr (do_inhibit m)
   \<and> effects_since m (state_of (inhibit (m\<lparr>timeout := Some t\<rparr>))) =
       map Source_remove (case inhibit_id m of None \<Rightarrow> [] | Some i \<Rightarrow> [i])
       @ (if locked m = Some True then []
          else Command ''deactivate'' # (if manage_dpms m then [Xset ''-dpms''] else []))
       @ [Timeout_add (max 20 (t - 10) * 1000) (next_source m)]"
proof (intro conjI)
  show "effects_since m (do_inhibit m) =
     (if locked m = Some True then []
      else Command ''deactivate'' # (if manage_dpms m then [Xset ''-dpms''] else []))"
    by (simp add: do_inhibit_only_trace effects_since_def tick_effects_def)
  show "do_inhibit m = m\<lparr>trace := trace (do_inhibit m)\<rparr>"
    by (simp add: do_inhibit_only_trace)
  show "locked m = Some True \<longrightarrow> do_inhibit m = m"
    by (simp add: do_inhibit_def truthy_def)
  show "step Timer_tick m = Inr (do_inhibit m)"
    by simp
  have "timeout (m\<lparr>timeout := Some t\<rparr>) = Some t" by simp
  from inhibit_result [OF this]
  have "trace (state_of (inhibit (m\<lparr>timeout := Some t\<rparr>))) =
      trace m @ map Source_remove (case inhibit_id m of None \<Rightarrow> [] | Some i \<Rightarrow> [i])
       @ tick_effects m @ [Timeout_add (max 20 (t - 10) * 1000) (next_source m)]"
    by (simp add: state_of_def tick_effects_def)
  then show "effects_since m (state_of (inhibit (m\<lparr>timeout := Some t\<rparr>))) =
       map Source_remove (case inhibit_id m of None \<Rightarrow> [] | Some i \<Rightarrow> [i])
       @ (if locked m = Some True then []
          else Command ''deactivate'' # (if manage_dpms m then [Xset ''-dpms''] else []))
       @ [Timeout_add (max 20 (t - 10) * 1000) (next_source m)]"
    by (simp add: effects_since_def tick_effects_def)
qed

theorem tick_skipped_when_locked_witness:
  "locked locked_manager = Some True
   \<and> do_inhibit locked_manager = locked_manager"
proof -
  have l: "locked locked_manager = Some True"
    by (simp add: locked_manager_def)
  from tick_skipped_when_locked [where m = locked_manager and t = 0] l
  show ?thesis by simp
qed

section \<open>Activation and the reachable states\<close>

subsection \<open>The initial query\<close>

lemma query_state_cases:
  assumes absent: "time_output env = None \<Longrightarrow>
      query_state env m = Inl (AttributeError,
        m\<lparr>active := Some False, active_since := Some (now env), locked := Some False,
          trace := trace m @ [Command ''time'']\<rparr>) \<Longrightarrow> thesis"
    and no_match: "\<And>text. time_output env = Some text \<Longrightarrow> re_search text = None \<Longrightarrow>
      query_state env m = Inr
        (m\<lparr>active := Some False, active_since := Some (now env), locked := Some False,
          trace := trace m @ [Command ''time'']\<rparr>) \<Longrightarrow> thesis"
    and bad_date: "\<And>text state date_str. time_output env = Some text \<Longrightarrow>
      re_search text = Some (state, date_str) \<Longrightarrow>
      strptime_datetime (strip date_str) = None \<Longrightarrow>
      query_state env m = Inl (ValueError,
        m\<lparr>active := Some (state \<noteq> ''non-blanked''), active_since := Some (now env),
          locked := Some False, trace := trace m @ [Command ''time'']\<rparr>) \<Longrightarrow> thesis"
    and parsed: "\<And>text state date_str since. time_output env = Some text \<Longrightarrow>
      re_search text = Some (state, date_str) \<Longrightarrow>
      strptime_datetime (strip date_str) = Some since \<Longrightarrow>
      query_state env m = Inr
        (m\<lparr>active := Some (state \<noteq> ''non-blanked''), active_since := Some since,
          locked := Some (state = ''locked''), trace := trace m @ [Command ''time'']\<rparr>) \<Longrightarrow> thesis"
  shows thesis
proof (cases "time_output env")
  case None
  then have "query_state env m = Inl (AttributeError,
        m\<lparr>active := Some False, active_since := Some (now env), locked := Some False,
          trace := trace m @ [Command ''time'']\<rparr>)"
    by (simp add: query_state_def do_command_def effect_def Let_def)
  with None show ?thesis by (rule absent)
next
  case (Some out)
  show ?thesis
  proof (cases "re_search out")
    case None
    with Some have "query_state env m = Inr
        (m\<lparr>active := Some False, active_since := Some (now env), locked := Some False,
          trace := trace m @ [Command ''time'']\<rparr>)"
      by (simp add: query_state_def do_command_def effect_def Let_def)
    with Some None show ?thesis by (rule no_match)
  next
    case found: (Some g)
    obtain state date_str where g: "g = (state, date_str)" by (cases g)
    show ?thesis
    proof (cases "strptime_datetime (strip date_str)")
      case None
      with Some found g have "query_state env m = Inl (ValueError,
        m\<lparr>active := Some (state \<noteq> ''non-blanked''), active_since := Some (now env),
          locked := Some False, trace := trace m @ [Command ''time'']\<rparr>)"
        by (simp add: query_state_def do_command_def effect_def Let_def)
      with Some found [unfolded g] None show ?thesis by (rule bad_date)
    next
      case parsed_date: (Some since)
      with Some found g have "query_state env m = Inr
        (m\<lparr>active := Some (state \<noteq> ''non-blanked''), active_since := Some since,
          locked := Some (state = ''locked''), trace := trace m @ [Command ''time'']\<rparr>)"
        by (simp add: query_state_def do_command_def effect_def Let_def)
      with Some found [unfolded g] parsed_date show ?thesis by (rule parsed)
    qed
  qed
qed

text \<open>The query sets the three state fields and adds its command to the trace.\<close>

lemma query_state_shape:
  "\<exists>a s l. state_of (query_state env m) =
     m\<lparr>active := a, active_since := s, locked := l, trace := trace m @ [Command ''time'']\<rparr>
     \<and> (l = Some True \<longrightarrow> a = Some True)"
proof (rule query_state_cases [of env m])
  assume "query_state env m = Inl (AttributeError,
        m\<lparr>active := Some False, active_since := Some (now env), locked := Some False,
          trace := trace m @ [Command ''time'']\<rparr>)"
  then have "state_of (query_state env m) =
        m\<lparr>active := Some False, active_since := Some (now env), locked := Some False,
          trace := trace m @ [Command ''time'']\<rparr> \<and> (Some False = Some True \<longrightarrow> Some False = Some True)"
    by (simp add: state_of_def)
  then show ?thesis by (intro exI)
next
  assume "query_state env m = Inr
        (m\<lparr>active := Some False, active_since := Some (now env), locked := Some False,
          trace := trace m @ [Command ''time'']\<rparr>)"
  then have "state_of (query_state env m) =
        m\<lparr>active := Some False, active_since := Some (now env), locked := Some False,
          trace := trace m @ [Command ''time'']\<rparr> \<and> (Some False = Some True \<longrightarrow> Some False = Some True)"
    by (simp add: state_of_def)
  then show ?thesis by (intro exI)
next
  fix state :: string
  assume "query_state env m = Inl (ValueError,
        m\<lparr>active := Some (state \<noteq> ''non-blanked''), active_since := Some (now env),
          locked := Some False, trace := trace m @ [Command ''time'']\<rparr>)"
  then have "state_of (query_state env m) =
        m\<lparr>active := Some (state \<noteq> ''non-blanked''), active_since := Some (now env),
          locked := Some False, trace := trace m @ [Command ''time'']\<rparr>
        \<and> (Some False = Some True \<longrightarrow> Some (state \<noteq> ''non-blanked'') = Some True)"
    by (simp add: state_of_def)
  then show ?thesis by (intro exI)
next
  fix state :: string and since
  assume "query_state env m = Inr
        (m\<lparr>active := Some (state \<noteq> ''non-blanked''), active_since := Some since,
          locked := Some (state = ''locked''), trace := trace m @ [Command ''time'']\<rparr>)"
  then have "state_of (query_state env m) =
        m\<lparr>active := Some (state \<noteq> ''non-blanked''), active_since := Some since,
          locked := Some (state = ''locked''), trace := trace m @ [Command ''time'']\<rparr>
        \<and> (Some (state = ''locked'') = Some True \<longrightarrow> Some (state \<noteq> ''non-blanked'') = Some True)"
    by (auto simp add: state_of_def)
  then show ?thesis by (intro exI)
qed

subsection \<open>Activation step by step\<close>

lemma activate_decompose:
  assumes "activate env m0 = Inr m"
  obtains a s l where "l = Some True \<longrightarrow> a = Some True"
    and "read_timeout None True (options_file env)
           (m0\<lparr>active := a, active_since := s, locked := l,
               trace := trace m0 @ [Popen ''xscreensaver'', Command ''time'',
                                    Popen ''xscreensaver-command -watch''],
               watcher_read_buf := Some [], timeout := Some (- 1)\<rparr>) = Inr m"
proof -
  define m1 where "m1 = effect (Popen ''xscreensaver'') m0"
  have xss: "xss_spawns env"
    using assms by (cases "xss_spawns env") (simp_all add: activate_def)
  obtain a s l where shape: "state_of (query_state env m1) =
       m1\<lparr>active := a, active_since := s, locked := l, trace := trace m1 @ [Command ''time'']\<rparr>"
    and lock: "l = Some True \<longrightarrow> a = Some True"
    using query_state_shape [of env m1] by blast
  show thesis
  proof (cases "query_state env m1")
    case (Inl e)
    with assms xss show ?thesis by (simp add: activate_def m1_def)
  next
    case (Inr m5)
    with shape have m5: "m5 =
       m1\<lparr>active := a, active_since := s, locked := l, trace := trace m1 @ [Command ''time'']\<rparr>"
      by (simp add: state_of_def)
    show ?thesis
    proof (cases "watcher_spawns env")
      case False
      with assms xss Inr show ?thesis by (simp add: activate_def m1_def)
    next
      case True
      with assms xss Inr
      have "read_timeout None True (options_file env)
              ((effect (Popen ''xscreensaver-command -watch'') m5)
                 \<lparr>watcher_read_buf := Some [], timeout := Some (- 1)\<rparr>) = Inr m"
        by (simp add: activate_def m1_def Let_def)
      then have "read_timeout None True (options_file env)
           (m0\<lparr>active := a, active_since := s, locked := l,
               trace := trace m0 @ [Popen ''xscreensaver'', Command ''time'',
                                    Popen ''xscreensaver-command -watch''],
               watcher_read_buf := Some [], timeout := Some (- 1)\<rparr>) = Inr m"
        by (simp add: m5 m1_def effect_def)
      with lock show ?thesis by (rule that)
    qed
  qed
qed

subsection \<open>What every operation preserves\<close>

lemma emit_consistent: "consistent m \<Longrightarrow> consistent (emit e m)"
  by (simp add: consistent_def timers_tracked_def locked_implies_active_def emit_def effect_def)

lemma inhibit_consistent:
  assumes "consistent m"
  shows "consistent (state_of (inhibit m))"
proof -
  from assms obtain t where t: "timeout m = Some t" and tr: "timers_tracked m"
    by (auto simp: consistent_def)
  from inhibit_tracked [OF t tr] assms show ?thesis
    by (simp add: state_of_def consistent_def timers_tracked_def locked_implies_active_def)
qed

lemma read_timeout_consistent:
  assumes "timers_tracked m" and "locked_implies_active m" and "timeout m \<noteq> None"
  shows "consistent (state_of (read_timeout event_type init opts m))"
proof (cases "event_type = Some CHANGES_DONE_HINT \<or> event_type = Some DELETED \<or> init")
  case False
  then have "read_timeout event_type init opts m = Inr m"
    by (simp add: read_timeout_def)
  with assms show ?thesis by (simp add: state_of_def consistent_def)
next
  case True
  show ?thesis
  proof (cases "computed_timeout event_type init opts")
    case (Inl e)
    with True have "read_timeout event_type init opts m = Inl (e, m)"
      by (rule read_timeout_raises)
    with assms show ?thesis by (simp add: state_of_def consistent_def)
  next
    case (Inr t)
    have c: "consistent (m\<lparr>timeout := Some t\<rparr>)"
      using assms by (simp add: consistent_def timers_tracked_def locked_implies_active_def)
    note acts = read_timeout_acts [OF True Inr, where m = m]
    show ?thesis
    proof (cases "Some t = timeout m")
      case same: True
      with acts have "read_timeout event_type init opts m = Inr m" by simp
      with assms show ?thesis by (simp add: state_of_def consistent_def)
    next
      case differs: False
      show ?thesis
      proof (cases "inhibit_id m = None")
        case True
        with acts differs have "state_of (read_timeout event_type init opts m) =
            emit (Emit_timeout_changed t) (m\<lparr>timeout := Some t\<rparr>)"
          by (simp add: state_of_def)
        with emit_consistent [OF c] show ?thesis by simp
      next
        case False
        with acts differs have "state_of (read_timeout event_type init opts m) =
            emit (Emit_timeout_changed t) (state_of (inhibit (m\<lparr>timeout := Some t\<rparr>)))"
          by (simp add: state_of_def)
        with emit_consistent [OF inhibit_consistent [OF c]] show ?thesis by simp
      qed
    qed
  qed
qed

lemma activate_consistent:
  assumes "activate env m0 = Inr m" and "timers_tracked m0"
  shows "consistent m"
proof -
  from assms(1) obtain a s l where lock: "l = Some True \<longrightarrow> a = Some True"
    and rt: "read_timeout None True (options_file env)
           (m0\<lparr>active := a, active_since := s, locked := l,
               trace := trace m0 @ [Popen ''xscreensaver'', Command ''time'',
                                    Popen ''xscreensaver-command -watch''],
               watcher_read_buf := Some [], timeout := Some (- 1)\<rparr>) = Inr m"
    by (rule activate_decompose)
  define m7 where "m7 = m0\<lparr>active := a, active_since := s, locked := l,
               trace := trace m0 @ [Popen ''xscreensaver'', Command ''time'',
                                    Popen ''xscreensaver-command -watch''],
               watcher_read_buf := Some [], timeout := Some (- 1)\<rparr>"
  have "timers_tracked m7" "locked_implies_active m7" "timeout m7 \<noteq> None"
    using assms(2) lock by (simp_all add: m7_def timers_tracked_def locked_implies_active_def)
  then have "consistent (state_of (read_timeout None True (options_file env) m7))"
    by (rule read_timeout_consistent)
  with rt show ?thesis by (simp add: m7_def state_of_def)
qed

lemma step_consistent:
  assumes "consistent m"
  shows "consistent (state_of (step oper m))"
proof (cases oper)
  case (Watcher_read c)
  with assms read_from_watcher_keeps [of c m] read_from_watcher_lock [of m c]
  show ?thesis by (simp add: consistent_def timers_tracked_def)
next
  case (Options_changed e f)
  with assms read_timeout_consistent [of m "Some e" False f]
  show ?thesis by (simp add: consistent_def)
next
  case (Set_active v)
  with assms show ?thesis
    by (simp add: state_of_def set_active_def do_command_def effect_def consistent_def
        timers_tracked_def locked_implies_active_def)
next
  case Lock
  with assms show ?thesis
    by (simp add: state_of_def lock_def do_command_def effect_def consistent_def
        timers_tracked_def locked_implies_active_def)
next
  case Simulate_user_activity
  with assms show ?thesis
    by (simp add: state_of_def simulate_user_activity_def do_command_def effect_def
        consistent_def timers_tracked_def locked_implies_active_def)
next
  case Inhibit
  with inhibit_consistent [OF assms] show ?thesis by simp
next
  case Uninhibit
  from assms have "timers_tracked (uninhibit m)"
    by (simp add: consistent_def uninhibit_tracked)
  moreover from assms have "timeout (uninhibit m) \<noteq> None \<and> locked_implies_active (uninhibit m)"
    by (simp add: consistent_def uninhibit_def source_remove_def set_dpms_def effect_def
        locked_implies_active_def split: option.split)
  ultimately show ?thesis using Uninhibit by (simp add: state_of_def consistent_def)
next
  case Timer_tick
  with assms show ?thesis
    by (simp add: state_of_def do_inhibit_only_trace consistent_def
        timers_tracked_def locked_implies_active_def)
qed

lemma reachable_consistent: "reachable m \<Longrightarrow> consistent m"
proof (induction rule: reachable.induct)
  case (activated env no_dpms m)
  have "timers_tracked (XScreenSaverManager no_dpms)"
    by (simp add: timers_tracked_def XScreenSaverManager_def)
  with activated show ?case by (rule activate_consistent)
next
  case (stepped m oper)
  from stepped.IH show ?case by (rule step_consistent)
qed

section \<open>The example runs\<close>

lemma activate_example: "activate example_env (XScreenSaverManager False) = Inr example_manager"
  by code_simp

lemma activate_locked: "activate locked_env (XScreenSaverManager False) = Inr locked_manager"
  by code_simp

lemma reachable_example: "reachable example_manager"
  using activate_example by (rule reachable.activated)

lemma reachable_locked: "reachable locked_manager"
  using activate_locked by (rule reachable.activated)


section \<open>The invariant of the state tracker\<close>

text \<open>
  Claim C2. In every state an activated manager can reach by watcher bytes, file-monitor
  notifications, commands and timer ticks, whether the operation returned or raised,
  \<open>locked\<close> true implies \<open>active\<close> true: the state with \<open>active\<close> false and \<open>locked\<close>
  true is not reachable.
\<close>

theorem locked_implies_active_invariant:
  assumes "reachable m"
  shows "(locked m = Some True \<longrightarrow> active m = Some True)
         \<and> \<not> (active m = Some False \<and> locked m = Some True)"
proof -
  from assms have "consistent m" by (rule reachable_consistent)
  then have "locked m = Some True \<longrightarrow> active m = Some True"
    by (simp add: consistent_def locked_implies_active_def)
  then show ?thesis by auto
qed

theorem locked_implies_active_invariant_witness:
  "reachable locked_manager \<and> locked locked_manager = Some True
   \<and> active locked_manager = Some True"
proof -
  have l: "locked locked_manager = Some True"
    by (simp add: locked_manager_def)
  from locked_implies_active_invariant [OF reachable_locked] l reachable_locked
  show ?thesis by simp
qed


section \<open>The inhibition timer\<close>

text \<open>
  Claim C4. In every reachable state the timeout is set, and \<^verbatim>\<open>inhibit\<close> returns
  normally; it removes each timer that was armed, performs one tick, and arms one timer,
  in this order, so that afterwards exactly one timer is armed, at \<open>max 20 (t - 10)\<close>
  seconds for the timeout \<open>t\<close> at the call, and \<^verbatim>\<open>_inhibit_id\<close> names it. A second call,
  with whatever timeout \<open>t'\<close> is stored by then, again leaves exactly one timer, at
  \<open>max 20 (t' - 10)\<close> seconds.
\<close>

theorem inhibit_arms_one_timer:
  assumes "reachable m"
  shows "\<exists>t m'. timeout m = Some t \<and> inhibit m = Inr m'
           \<and> effects_since m m' =
               map (Source_remove \<circ> fst) (timers m) @ effects_since m (do_inhibit m)
               @ [Timeout_add (max 20 (t - 10) * 1000) (next_source m)]
           \<and> timers m' = [(next_source m, max 20 (t - 10) * 1000)]
           \<and> inhibit_id m' = Some (next_source m)
           \<and> (\<forall>t'. \<exists>m''. inhibit (m'\<lparr>timeout := Some t'\<rparr>) = Inr m''
                  \<and> timers m'' = [(next_source m', max 20 (t' - 10) * 1000)]
                  \<and> inhibit_id m'' = Some (next_source m'))"
proof -
  from assms have c: "consistent m" by (rule reachable_consistent)
  then obtain t where t: "timeout m = Some t" and tr: "timers_tracked m"
    by (auto simp: consistent_def)
  define m' where "m' = m\<lparr>inhibit_id := Some (next_source m),
           timers := [(next_source m, max 20 (t - 10) * 1000)],
           next_source := Suc (next_source m),
           trace := trace m @ map (Source_remove \<circ> fst) (timers m) @ tick_effects m
                      @ [Timeout_add (max 20 (t - 10) * 1000) (next_source m)]\<rparr>"
  have first: "inhibit m = Inr m'"
    unfolding m'_def using t tr by (rule inhibit_tracked)
  have tick: "effects_since m (do_inhibit m) = tick_effects m"
    by (simp add: do_inhibit_only_trace effects_since_def)
  have eff: "effects_since m m' =
               map (Source_remove \<circ> fst) (timers m) @ effects_since m (do_inhibit m)
               @ [Timeout_add (max 20 (t - 10) * 1000) (next_source m)]"
    unfolding tick by (simp add: m'_def effects_since_def)
  have tm: "timers m' = [(next_source m, max 20 (t - 10) * 1000)]"
    and im: "inhibit_id m' = Some (next_source m)"
    by (simp_all add: m'_def)
  have second: "\<exists>m''. inhibit (m'\<lparr>timeout := Some t'\<rparr>) = Inr m''
                  \<and> timers m'' = [(next_source m', max 20 (t' - 10) * 1000)]
                  \<and> inhibit_id m'' = Some (next_source m')" for t'
  proof -
    have "timeout (m'\<lparr>timeout := Some t'\<rparr>) = Some t'" by simp
    moreover have "timers_tracked (m'\<lparr>timeout := Some t'\<rparr>)"
      by (simp add: timers_tracked_def tm im)
    ultimately have "inhibit (m'\<lparr>timeout := Some t'\<rparr>) =
       Inr (m'\<lparr>timeout := Some t'\<rparr>\<lparr>inhibit_id := Some (next_source (m'\<lparr>timeout := Some t'\<rparr>)),
           timers := [(next_source (m'\<lparr>timeout := Some t'\<rparr>), max 20 (t' - 10) * 1000)],
           next_source := Suc (next_source (m'\<lparr>timeout := Some t'\<rparr>)),
           trace := trace (m'\<lparr>timeout := Some t'\<rparr>)
                      @ map (Source_remove \<circ> fst) (timers (m'\<lparr>timeout := Some t'\<rparr>))
                      @ tick_effects (m'\<lparr>timeout := Some t'\<rparr>)
                      @ [Timeout_add (max 20 (t' - 10) * 1000)
                           (next_source (m'\<lparr>timeout := Some t'\<rparr>))]\<rparr>)"
      by (rule inhibit_tracked)
    then show ?thesis by simp
  qed
  from t first eff tm im second show ?thesis by blast
qed

theorem inhibit_arms_one_timer_witness:
  "reachable example_manager
   \<and> timers (state_of (inhibit example_manager)) = [(1, 320000)]
   \<and> inhibit_id (state_of (inhibit example_manager)) = Some 1"
proof -
  have t0: "timeout example_manager = Some 330" and n0: "next_source example_manager = 1"
    by (simp_all add: example_manager_def)
  from inhibit_arms_one_timer [OF reachable_example]
  obtain t m' where "timeout example_manager = Some t" and "inhibit example_manager = Inr m'"
    and "timers m' = [(next_source example_manager, max 20 (t - 10) * 1000)]"
    and "inhibit_id m' = Some (next_source example_manager)"
    by blast
  with t0 n0 reachable_example show ?thesis
    by (simp add: state_of_def)
qed

section \<open>Configuration reloads and the timeout notification\<close>

lemma tick_effects_no_timeout_changed: "filter is_timeout_changed (tick_effects m) = []"
  by (simp add: tick_effects_def)

lemma inhibit_no_timeout_changed:
  "filter is_timeout_changed (trace (state_of (inhibit (m\<lparr>timeout := Some t\<rparr>)))) =
   filter is_timeout_changed (trace m)"
proof -
  have "timeout (m\<lparr>timeout := Some t\<rparr>) = Some t" by simp
  from inhibit_result [OF this] show ?thesis
    by (simp add: state_of_def tick_effects_no_timeout_changed split: option.split)
qed

lemma inhibit_extends_trace:
  "\<exists>es. trace (state_of (inhibit (m\<lparr>timeout := Some t\<rparr>))) = trace m @ es"
proof -
  have "timeout (m\<lparr>timeout := Some t\<rparr>) = Some t" by simp
  from inhibit_result [OF this] show ?thesis
    by (simp add: state_of_def)
qed

lemma inhibit_keeps_timeout:
  "timeout (state_of (inhibit (m\<lparr>timeout := Some t\<rparr>))) = Some t"
proof -
  have "timeout (m\<lparr>timeout := Some t\<rparr>) = Some t" by simp
  from inhibit_result [OF this] show ?thesis
    by (simp add: state_of_def)
qed

lemma filter_effects_since:
  assumes "trace m' = trace m @ es"
  shows "filter P (effects_since m m') = filter P es"
  using assms by (simp add: effects_since_def)

text \<open>What a call that acts and finds a different timeout leaves behind.\<close>

lemma read_timeout_changed:
  assumes acts: "event_type = Some CHANGES_DONE_HINT \<or> event_type = Some DELETED \<or> init"
    and t: "computed_timeout event_type init opts = Inr t"
    and differs: "timeout m \<noteq> Some t"
  shows "\<exists>m'. read_timeout event_type init opts m = Inr m' \<and> timeout m' = Some t
           \<and> filter is_timeout_changed (effects_since m m') = [Emit_timeout_changed t]
           \<and> last (trace m') = Emit_timeout_changed t
           \<and> (\<exists>es. trace m' = trace m @ es)"
proof (cases "inhibit_id m = None")
  case True
  with read_timeout_acts [OF acts t, where m = m] differs
  have r: "read_timeout event_type init opts m =
      Inr (emit (Emit_timeout_changed t) (m\<lparr>timeout := Some t\<rparr>))"
    by auto
  have "trace (emit (Emit_timeout_changed t) (m\<lparr>timeout := Some t\<rparr>)) =
      trace m @ [Emit_timeout_changed t]"
    by (simp add: emit_def effect_def)
  then have "filter is_timeout_changed
      (effects_since m (emit (Emit_timeout_changed t) (m\<lparr>timeout := Some t\<rparr>))) =
      [Emit_timeout_changed t]"
    by (simp add: effects_since_def)
  with r show ?thesis by (simp add: emit_def effect_def)
next
  case False
  define m2 where "m2 = state_of (inhibit (m\<lparr>timeout := Some t\<rparr>))"
  from False read_timeout_acts [OF acts t, where m = m] differs
  have r: "read_timeout event_type init opts m = Inr (emit (Emit_timeout_changed t) m2)"
    by (auto simp: m2_def)
  obtain es where es: "trace m2 = trace m @ es"
    using inhibit_extends_trace [where m = m and t = t] by (auto simp: m2_def)
  have "filter is_timeout_changed (trace m2) = filter is_timeout_changed (trace m)"
    unfolding m2_def by (rule inhibit_no_timeout_changed)
  with es have none: "filter is_timeout_changed es = []" by simp
  have "trace (emit (Emit_timeout_changed t) m2) = trace m @ (es @ [Emit_timeout_changed t])"
    by (simp add: emit_def effect_def es)
  then have "filter is_timeout_changed (effects_since m (emit (Emit_timeout_changed t) m2)) =
      filter is_timeout_changed (es @ [Emit_timeout_changed t])"
    by (rule filter_effects_since)
  with none have "filter is_timeout_changed (effects_since m (emit (Emit_timeout_changed t) m2)) =
      [Emit_timeout_changed t]"
    by simp
  moreover have "timeout (emit (Emit_timeout_changed t) m2) = Some t"
    by (simp add: emit_def effect_def m2_def inhibit_keeps_timeout)
  moreover have "last (trace (emit (Emit_timeout_changed t) m2)) = Emit_timeout_changed t"
    by (simp add: emit_def effect_def)
  moreover have "\<exists>es'. trace (emit (Emit_timeout_changed t) m2) = trace m @ es'"
    by (simp add: emit_def effect_def es)
  ultimately show ?thesis using r by simp
qed

text \<open>
  Claim C7. A notification of the file monitor that makes \<^verbatim>\<open>_read_timeout\<close> compute a
  timeout \<open>t\<close> (from the file on \<^verbatim>\<open>CHANGES_DONE_HINT\<close>, the default on \<^verbatim>\<open>DELETED\<close>)
  returns normally. (A read that raises computes no timeout: the exception leaves the
  method with the manager as it was.) If \<open>t\<close> is the stored timeout the manager is unchanged and nothing is
  emitted. Otherwise \<open>t\<close> is stored, \<^verbatim>\<open>inhibit\<close> runs on that state when a timer is
  armed, and then \<^verbatim>\<open>timeout-changed\<close> is emitted with \<open>t\<close>, once and as the last
  effect. So \<^verbatim>\<open>timeout-changed\<close> is emitted if and only if \<open>t\<close> differs from the stored
  timeout.
\<close>

theorem reload_notifies_iff_changed:
  assumes "ev = CHANGES_DONE_HINT \<and> read_options opts = Inr t
           \<or> ev = DELETED \<and> t = DEFAULT_TIMEOUT"
  shows "read_timeout (Some ev) False opts m =
           (if timeout m = Some t then Inr m
            else if inhibit_id m = None
            then Inr (emit (Emit_timeout_changed t) (m\<lparr>timeout := Some t\<rparr>))
            else Inr (emit (Emit_timeout_changed t) (state_of (inhibit (m\<lparr>timeout := Some t\<rparr>)))))
         \<and> filter is_timeout_changed
             (effects_since m (state_of (read_timeout (Some ev) False opts m))) =
             (if timeout m = Some t then [] else [Emit_timeout_changed t])
         \<and> timeout (state_of (read_timeout (Some ev) False opts m)) =
             (if timeout m = Some t then timeout m else Some t)
         \<and> (\<exists>m2. inhibit (m\<lparr>timeout := Some t\<rparr>) = Inr m2)"
proof -
  have acts: "Some ev = Some CHANGES_DONE_HINT \<or> Some ev = Some DELETED \<or> False"
    using assms by auto
  have t: "computed_timeout (Some ev) False opts = Inr t"
    using assms by (auto simp: computed_timeout_def)
  have first: "read_timeout (Some ev) False opts m =
           (if timeout m = Some t then Inr m
            else if inhibit_id m = None
            then Inr (emit (Emit_timeout_changed t) (m\<lparr>timeout := Some t\<rparr>))
            else Inr (emit (Emit_timeout_changed t) (state_of (inhibit (m\<lparr>timeout := Some t\<rparr>)))))"
    using read_timeout_acts [OF acts t, where m = m] by auto
  have rest: "filter is_timeout_changed
             (effects_since m (state_of (read_timeout (Some ev) False opts m))) =
             (if timeout m = Some t then [] else [Emit_timeout_changed t])
         \<and> timeout (state_of (read_timeout (Some ev) False opts m)) =
             (if timeout m = Some t then timeout m else Some t)"
  proof (cases "timeout m = Some t")
    case True
    with first have "read_timeout (Some ev) False opts m = Inr m" by simp
    with True show ?thesis by (simp add: state_of_def effects_since_def)
  next
    case False
    from read_timeout_changed [OF acts t False]
    obtain m' where "read_timeout (Some ev) False opts m = Inr m'" and "timeout m' = Some t"
      and "filter is_timeout_changed (effects_since m m') = [Emit_timeout_changed t]"
      by blast
    with False show ?thesis by (simp add: state_of_def)
  qed
  from first rest inhibit_returns [where m = m and t = t] show ?thesis by blast
qed

theorem reload_notifies_iff_changed_witness:
  "filter is_timeout_changed
     (effects_since example_manager
        (state_of (read_timeout (Some DELETED) False None example_manager))) =
     [Emit_timeout_changed 600]
   \<and> timeout (state_of (read_timeout (Some DELETED) False None example_manager)) = Some 600"
proof -
  have t0: "timeout example_manager = Some 330"
    by (simp add: example_manager_def)
  have "DELETED = CHANGES_DONE_HINT \<and> read_options None = Inr DEFAULT_TIMEOUT
        \<or> DELETED = DELETED \<and> DEFAULT_TIMEOUT = DEFAULT_TIMEOUT"
    by simp
  from reload_notifies_iff_changed [OF this, of example_manager, THEN conjunct2] t0
  show ?thesis by (simp add: DEFAULT_TIMEOUT_def)
qed

section \<open>The configuration reader\<close>

text \<open>
  The loop stops at the first item that is a timeout line or that does not decode, and
  that item alone gives the result.
\<close>

lemma scan_lines_find:
  "scan_lines f d =
     (case find deciding_item f of
        None \<Rightarrow> Inr d
      | Some Undecodable \<Rightarrow> Inl UnicodeDecodeError
      | Some (Line l) \<Rightarrow>
          (case strptime_timeout (split (strip l) ! 1) of
             None \<Rightarrow> Inr d
           | Some dt \<Rightarrow> Inr (seconds_of dt)))"
  by (induction f d rule: scan_lines.induct)
     (simp_all add: timeout_line_def Let_def seconds_of_def split: option.split)





subsection \<open>Times written as two digits each\<close>

lemma digit_char_props:
  assumes "k < 10"
  shows "digit_val (digit_char k) = Some (int k)"
    and "digit_char k \<noteq> CHR '':''"
    and "\<not> is_space (digit_char k)"
proof -
  from assms have "k = 0 \<or> k = 1 \<or> k = 2 \<or> k = 3 \<or> k = 4 \<or> k = 5 \<or> k = 6 \<or> k = 7
      \<or> k = 8 \<or> k = 9"
    by arith
  then show "digit_val (digit_char k) = Some (int k)"
    by (elim disjE) (simp_all add: digit_char_def digit_val_def)
  from \<open>k = 0 \<or> _\<close> show "digit_char k \<noteq> CHR '':''"
    by (elim disjE) (simp_all add: digit_char_def)
  from \<open>k = 0 \<or> _\<close> show "\<not> is_space (digit_char k)"
    by (elim disjE) (simp_all add: digit_char_def is_space_def)
qed

lemma two_digit_field_two_digits:
  assumes "n < 100" and "lo \<le> int n" and "int n \<le> hi"
  shows "two_digit_field lo hi (two_digits n) = Some (int n)"
proof -
  from assms(1) have d: "n div 10 < 10" "n mod 10 < 10" by simp_all
  have "int_of_digits (two_digits n) = 10 * int (n div 10) + int (n mod 10)"
    by (simp add: int_of_digits_def two_digits_def digit_char_props(1) [OF d(1)]
        digit_char_props(1) [OF d(2)])
  also have "\<dots> = int n"
    by (simp add: zdiv_int zmod_int)
  finally have v: "int_of_digits (two_digits n) = int n" .
  have "list_all is_digit (two_digits n)"
    by (simp add: two_digits_def is_digit_def digit_char_props(1) [OF d(1)]
        digit_char_props(1) [OF d(2)])
  moreover have "two_digits n \<noteq> [] \<and> length (two_digits n) \<le> 2"
    by (simp add: two_digits_def)
  ultimately show ?thesis
    using assms(2,3) by (simp add: two_digit_field_def v)
qed

lemma split_on_hh_mm_ss:
  assumes "h < 100" and "m < 100" and "s < 100"
  shows "split_on CHR '':'' (hh_mm_ss h m s) = [two_digits h, two_digits m, two_digits s]"
proof -
  from assms have d: "h div 10 < 10" "h mod 10 < 10" "m div 10 < 10" "m mod 10 < 10"
      "s div 10 < 10" "s mod 10 < 10"
    by simp_all
  note ne = d [THEN digit_char_props(2)]
  show ?thesis
    by (simp add: split_on_def hh_mm_ss_def two_digits_def ne)
qed

lemma strptime_timeout_hh_mm_ss:
  assumes "h < 24" and "m < 60" and "s < 60"
  shows "strptime_timeout (hh_mm_ss h m s) =
     Some \<lparr>year = 1900, month = 1, day = 1, hour = int h, minute = int m, second = int s,
           microsecond = 0\<rparr>"
proof -
  from assms have sp: "split_on CHR '':'' (hh_mm_ss h m s) = [two_digits h, two_digits m, two_digits s]"
    by (intro split_on_hh_mm_ss) simp_all
  from assms have f: "two_digit_field 0 23 (two_digits h) = Some (int h)"
    "two_digit_field 0 59 (two_digits m) = Some (int m)"
    "two_digit_field 0 61 (two_digits s) = Some (int s)"
    by (simp_all add: two_digit_field_two_digits)
  have "parse_hms (hh_mm_ss h m s) = Some (int h, int m, int s)"
    by (simp add: parse_hms_def sp f)
  moreover have "days_in_month 1900 1 = 31"
    by (simp add: days_in_month_def)
  ultimately show ?thesis
    using assms by (simp add: strptime_timeout_def make_datetime_def)
qed

lemma split_timeout_line:
  assumes "h < 100" and "m < 100" and "s < 100"
  shows "split (strip (''timeout: '' @ hh_mm_ss h m s)) = [''timeout:'', hh_mm_ss h m s]"
proof -
  from assms have d: "h div 10 < 10" "h mod 10 < 10" "m div 10 < 10" "m mod 10 < 10"
      "s div 10 < 10" "s mod 10 < 10"
    by simp_all
  note ns = d [THEN digit_char_props(3)]
  have sp: "\<not> is_space CHR ''t''" "\<not> is_space CHR ''i''" "\<not> is_space CHR ''m''"
    "\<not> is_space CHR ''e''" "\<not> is_space CHR ''o''" "\<not> is_space CHR ''u''"
    "\<not> is_space CHR '':''" "is_space CHR '' ''"
    by (simp_all add: is_space_def)
  have "strip (''timeout: '' @ hh_mm_ss h m s) = ''timeout: '' @ hh_mm_ss h m s"
    by (simp add: strip_def hh_mm_ss_def two_digits_def ns sp)
  moreover have "split (''timeout: '' @ hh_mm_ss h m s) = [''timeout:'', hh_mm_ss h m s]"
    by (simp add: split_def hh_mm_ss_def two_digits_def ns sp)
  ultimately show ?thesis by simp
qed

lemma read_options_hh_mm_ss:
  assumes "h < 24" and "m < 60" and "s < 60"
  shows "read_options (Some [Line (''timeout: '' @ hh_mm_ss h m s)]) =
     Inr (int h * 3600 + int m * 60 + int s)"
proof -
  from assms have sp: "split (strip (''timeout: '' @ hh_mm_ss h m s)) = [''timeout:'', hh_mm_ss h m s]"
    by (intro split_timeout_line) simp_all
  then have "timeout_line (''timeout: '' @ hh_mm_ss h m s)"
    by (simp add: timeout_line_def)
  with sp strptime_timeout_hh_mm_ss [OF assms] show ?thesis
    by (simp add: read_options_def scan_lines_find seconds_of_def)
qed

text \<open>
  What the reader returns, case by case. A file that cannot be opened gives the default,
  600 seconds. An open file is settled by its first item that is a line of exactly two
  words with \<^verbatim>\<open>timeout:\<close> first, or that does not decode: a timeout line gives hours
  times 3600 plus minutes times 60 plus seconds when its second word parses as a time of
  day and 600 when it does not; no such item gives 600; undecodable bytes before any
  timeout line raise. A time written \<^verbatim>\<open>HH:MM:SS\<close> parses to its three numbers, so that
  \<^verbatim>\<open>timeout: 00:05:30\<close> gives 330; \<^verbatim>\<open>timeout: bogus\<close> gives 600.
\<close>

lemma read_options_cases:
  "read_options None = Inr 600
   \<and> read_options (Some f) =
       (case find deciding_item f of
          None \<Rightarrow> Inr 600
        | Some Undecodable \<Rightarrow> Inl UnicodeDecodeError
        | Some (Line l) \<Rightarrow>
            (case strptime_timeout (split (strip l) ! 1) of
               None \<Rightarrow> Inr 600
             | Some dt \<Rightarrow> Inr (hour dt * 3600 + minute dt * 60 + second dt)))
   \<and> (h < 24 \<and> m < 60 \<and> s < 60 \<longrightarrow>
        (\<exists>dt. strptime_timeout (hh_mm_ss h m s) = Some dt
           \<and> hour dt = int h \<and> minute dt = int m \<and> second dt = int s)
        \<and> read_options (Some [Line (''timeout: '' @ hh_mm_ss h m s)]) =
            Inr (int h * 3600 + int m * 60 + int s))
   \<and> read_options (Some [Line ''timeout: 00:05:30'']) = Inr 330
   \<and> read_options (Some [Line ''timeout: bogus'']) = Inr 600"
proof (intro conjI impI)
  show "read_options None = Inr 600"
    by (simp add: read_options_def DEFAULT_TIMEOUT_def)
  show "read_options (Some f) =
       (case find deciding_item f of
          None \<Rightarrow> Inr 600
        | Some Undecodable \<Rightarrow> Inl UnicodeDecodeError
        | Some (Line l) \<Rightarrow>
            (case strptime_timeout (split (strip l) ! 1) of
               None \<Rightarrow> Inr 600
             | Some dt \<Rightarrow> Inr (hour dt * 3600 + minute dt * 60 + second dt)))"
    by (simp add: read_options_def DEFAULT_TIMEOUT_def scan_lines_find seconds_of_def
        split: option.split file_item.split)
  show "read_options (Some [Line ''timeout: 00:05:30'']) = Inr 330"
    by code_simp
  show "read_options (Some [Line ''timeout: bogus'']) = Inr 600"
    by code_simp
next
  assume "h < 24 \<and> m < 60 \<and> s < 60"
  then have b: "h < 24" "m < 60" "s < 60" by simp_all
  from strptime_timeout_hh_mm_ss [OF b]
  show "\<exists>dt. strptime_timeout (hh_mm_ss h m s) = Some dt
           \<and> hour dt = int h \<and> minute dt = int m \<and> second dt = int s"
    by simp
  from b show "read_options (Some [Line (''timeout: '' @ hh_mm_ss h m s)]) =
      Inr (int h * 3600 + int m * 60 + int s)"
    by (rule read_options_hh_mm_ss)
qed

text \<open>
  Claim C6 is that the reader gives the parsed timeout of the first timeout line and
  falls back to 600 seconds whenever the file is unreadable, has no such line, or has
  one that does not parse. The code does so except for a file that opens but does not
  decode: the iteration over the file raises \<^verbatim>\<open>UnicodeDecodeError\<close>, which is not an
  \<^verbatim>\<open>IOError\<close> and is raised outside the \<^verbatim>\<open>try\<close> around \<^verbatim>\<open>strptime\<close>, so no handler
  catches it. On such a file the read raises instead of giving 600;
  \<^verbatim>\<open>_read_timeout\<close> on a change of the file raises with it and leaves the stored
  timeout as it was, and \<^verbatim>\<open>activate\<close> ends with the exception, the timeout still at the
  sentinel and no \<^verbatim>\<open>timeout-changed\<close> emitted.
\<close>

theorem read_options_undecodable_raises:
  "read_options undecodable_file = Inl UnicodeDecodeError
   \<and> read_timeout (Some CHANGES_DONE_HINT) False undecodable_file example_manager =
       Inl (UnicodeDecodeError, example_manager)
   \<and> activate (example_env\<lparr>options_file := undecodable_file\<rparr>) (XScreenSaverManager False) =
       Inl (UnicodeDecodeError,
            example_manager\<lparr>timeout := Some (- 1),
              trace := [Popen ''xscreensaver'', Command ''time'',
                        Popen ''xscreensaver-command -watch'']\<rparr>)"
  by code_simp

section \<open>The first read of the options file\<close>



section \<open>Lines of the watcher\<close>

subsection \<open>What the binary pipe delivers\<close>

text \<open>
  Bytes are appended, and nothing else happens: no byte ends a line, the newline byte
  included.
\<close>

lemma feed_bytes:
  assumes "watcher_read_buf m = Some buf"
  shows "feed (bytes_of s) m = Inr (m\<lparr>watcher_read_buf := Some (buf @ bytes_of s)\<rparr>)"
  using assms
proof (induction s arbitrary: m buf)
  case Nil
  then show ?case by (simp add: bytes_of_def)
next
  case (Cons c s)
  have step: "read_from_watcher (Bytes [c]) m =
      Inr (m\<lparr>watcher_read_buf := Some (buf @ [Bytes [c]])\<rparr>)"
    using Cons.prems by (rule read_from_watcher_bytes)
  have "watcher_read_buf (m\<lparr>watcher_read_buf := Some (buf @ [Bytes [c]])\<rparr>) =
      Some (buf @ [Bytes [c]])"
    by simp
  from Cons.IH [OF this]
  have "feed (bytes_of s) (m\<lparr>watcher_read_buf := Some (buf @ [Bytes [c]])\<rparr>) =
      Inr (m\<lparr>watcher_read_buf := Some (buf @ Bytes [c] # bytes_of s)\<rparr>)"
    by simp
  with step show ?case by (simp add: bytes_of_def)
qed

lemma feed_bytes_state:
  assumes "watcher_read_buf m = Some buf"
  shows "locked (state_of (feed (bytes_of s) m)) = locked m
         \<and> active (state_of (feed (bytes_of s) m)) = active m
         \<and> active_since (state_of (feed (bytes_of s) m)) = active_since m
         \<and> trace (state_of (feed (bytes_of s) m)) = trace m"
  by (simp add: feed_bytes [OF assms] state_of_def)

subsection \<open>What a text stream would deliver\<close>

lemma join_chars: "join (Some (chars s)) = Some s"
  by (induction s) (simp_all add: chars_def join_def)

text \<open>
  The branch that ends a line is reached only by the \<^verbatim>\<open>str\<close> newline. There, a line that
  splits into a state word \<^verbatim>\<open>BLANK\<close>, \<^verbatim>\<open>LOCK\<close> or \<^verbatim>\<open>UNBLANK\<close> and a rest that parses as
  a timestamp sets \<open>locked\<close> to whether the word is \<^verbatim>\<open>LOCK\<close>, and commits \<open>active\<close> and
  \<open>active_since\<close> and emits \<^verbatim>\<open>active-changed\<close> only when the decoded \<open>active\<close> differs
  from the stored one.
\<close>

lemma text_line_updates:
  assumes "join (watcher_read_buf m) = Some event"
    and "split1 event = [state, rest]"
    and "state = ''BLANK'' \<or> state = ''LOCK'' \<or> state = ''UNBLANK''"
    and "strptime_datetime (strip rest) = Some since"
  shows "\<exists>m'. read_from_watcher (Str newline) m = Inr m'
           \<and> locked m' = Some (state = ''LOCK'')
           \<and> (if active m = Some (state \<noteq> ''UNBLANK'')
               then active m' = active m \<and> active_since m' = active_since m
                    \<and> effects_since m m' = []
               else active m' = Some (state \<noteq> ''UNBLANK'') \<and> active_since m' = Some since
                    \<and> effects_since m m' = [Emit_active_changed (state \<noteq> ''UNBLANK'')])"
proof (cases "active m = Some (state \<noteq> ''UNBLANK'')")
  case True
  with read_from_watcher_line [OF assms(1,2)] assms(3,4)
  have "read_from_watcher (Str newline) m =
      Inr (m\<lparr>watcher_read_buf := Some [], locked := Some (state = ''LOCK'')\<rparr>)"
    by auto
  with True show ?thesis by (simp add: effects_since_def)
next
  case False
  then have "Some (state \<noteq> ''UNBLANK'') \<noteq> active m" by auto
  with read_from_watcher_line [OF assms(1,2)] assms(3,4)
  have "read_from_watcher (Str newline) m =
      Inr (m\<lparr>watcher_read_buf := Some [], locked := Some (state = ''LOCK''),
             active := Some (state \<noteq> ''UNBLANK''), active_since := Some since,
             trace := trace m @ [Emit_active_changed (state \<noteq> ''UNBLANK'')]\<rparr>)"
    by simp
  with False show ?thesis by (simp add: effects_since_def)
qed

text \<open>There is no handler in that branch: a rest that does not parse raises.\<close>

lemma text_line_unparsable_raises:
  assumes "join (watcher_read_buf m) = Some event"
    and "split1 event = [state, rest]"
    and "state = ''BLANK'' \<or> state = ''LOCK'' \<or> state = ''UNBLANK''"
    and "strptime_datetime (strip rest) = None"
  shows "read_from_watcher (Str newline) m = Inl (ValueError, m\<lparr>watcher_read_buf := Some []\<rparr>)"
  using read_from_watcher_line [OF assms(1,2)] assms(3,4) by simp

subsection \<open>The claims on the program as it is wired\<close>

text \<open>
  Claim C1 is that every recognised line sets \<open>locked\<close> to whether its state word is
  \<^verbatim>\<open>LOCK\<close>, and commits \<open>active\<close> and \<open>active_since\<close> and emits \<^verbatim>\<open>active-changed\<close> when
  the decoded \<open>active\<close> differs from the stored one. The manager reads the watcher
  through a binary pipe and compares each byte with the \<^verbatim>\<open>str\<close> newline, which no
  \<^verbatim>\<open>bytes\<close> value equals. So no line is ever ended. After the bytes of
  \<^verbatim>\<open>LOCK Mon Jan 01 10:00:05 2024\<close> and a newline, on a manager whose screen is blanked
  and not locked, \<open>locked\<close> is still false and the buffer holds all the bytes. After the
  bytes of \<^verbatim>\<open>BLANK Mon Jan 01 10:00:00 2024\<close> and a newline, on a manager whose screen is
  not blanked, \<open>active\<close> is still false and nothing has been emitted. Both lines have a
  recognised state word and a timestamp that parses.
\<close>

theorem watcher_bytes_never_end_a_line:
  "split1 lock_line = [''LOCK'', ''Mon Jan 01 10:00:05 2024'']
   \<and> strptime_datetime (strip ''Mon Jan 01 10:00:05 2024'') =
       Some \<lparr>year = 2024, month = 1, day = 1, hour = 10, minute = 0, second = 5,
             microsecond = 0\<rparr>
   \<and> active blanked_manager = Some True \<and> locked blanked_manager = Some False
   \<and> feed (bytes_of (lock_line @ newline)) blanked_manager =
       Inr (blanked_manager\<lparr>watcher_read_buf := Some (bytes_of (lock_line @ newline))\<rparr>)
   \<and> locked (state_of (feed (bytes_of (lock_line @ newline)) blanked_manager)) = Some False
   \<and> split1 blank_line = [''BLANK'', ''Mon Jan 01 10:00:00 2024'']
   \<and> strptime_datetime (strip ''Mon Jan 01 10:00:00 2024'') = Some ten_o_clock
   \<and> active example_manager = Some False
   \<and> feed (bytes_of (blank_line @ newline)) example_manager =
       Inr (example_manager\<lparr>watcher_read_buf := Some (bytes_of (blank_line @ newline))\<rparr>)
   \<and> active (state_of (feed (bytes_of (blank_line @ newline)) example_manager)) = Some False
   \<and> effects_since example_manager
        (state_of (feed (bytes_of (blank_line @ newline)) example_manager)) = []"
proof -
  have b1: "watcher_read_buf blanked_manager = Some []"
    and a1: "active blanked_manager = Some True" and l1: "locked blanked_manager = Some False"
    by (simp_all add: blanked_manager_def example_manager_def)
  have b2: "watcher_read_buf example_manager = Some []"
    and a2: "active example_manager = Some False"
    by (simp_all add: example_manager_def)
  have p1: "split1 lock_line = [''LOCK'', ''Mon Jan 01 10:00:05 2024'']"
    by code_simp
  have p2: "strptime_datetime (strip ''Mon Jan 01 10:00:05 2024'') =
       Some \<lparr>year = 2024, month = 1, day = 1, hour = 10, minute = 0, second = 5,
             microsecond = 0\<rparr>"
    by code_simp
  have p3: "split1 blank_line = [''BLANK'', ''Mon Jan 01 10:00:00 2024'']"
    by code_simp
  have p4: "strptime_datetime (strip ''Mon Jan 01 10:00:00 2024'') = Some ten_o_clock"
    by code_simp
  note f1 = feed_bytes [OF b1, of "lock_line @ newline"]
  note s1 = feed_bytes_state [OF b1, of "lock_line @ newline"]
  note f2 = feed_bytes [OF b2, of "blank_line @ newline"]
  note s2 = feed_bytes_state [OF b2, of "blank_line @ newline"]
  from s2 have e2: "effects_since example_manager
        (state_of (feed (bytes_of (blank_line @ newline)) example_manager)) = []"
    by (simp add: effects_since_def)
  from p1 p2 p3 p4 a1 l1 a2 f1 s1 f2 s2 e2 show ?thesis by simp
qed

text \<open>
  Claim C3 is that a line with a recognised state word and a rest that is not a timestamp
  is logged and dropped without raising. The code has no such handling. As wired, the
  bytes of \<^verbatim>\<open>BLANK Mon Jan 01 25:00:00 2024\<close> and a newline, whose hour does not exist,
  are appended to the buffer like any others and stay there: the line is not ended, so
  it is neither examined nor dropped, and the bytes of the next line are appended after
  it. Were the stream a text stream, the newline would end the line, \<^verbatim>\<open>strptime\<close> would
  raise \<^verbatim>\<open>ValueError\<close>, and \<^verbatim>\<open>_read_from_watcher\<close> would let it out.
\<close>

theorem watcher_bad_line_not_dropped:
  "split1 bad_hour_line = [''BLANK'', ''Mon Jan 01 25:00:00 2024'']
   \<and> strptime_datetime (strip ''Mon Jan 01 25:00:00 2024'') = None
   \<and> feed (bytes_of (bad_hour_line @ newline)) example_manager =
       Inr (example_manager\<lparr>watcher_read_buf := Some (bytes_of (bad_hour_line @ newline))\<rparr>)
   \<and> feed (bytes_of (lock_line @ newline))
        (example_manager\<lparr>watcher_read_buf := Some (bytes_of (bad_hour_line @ newline))\<rparr>) =
       Inr (example_manager\<lparr>watcher_read_buf :=
              Some (bytes_of (bad_hour_line @ newline) @ bytes_of (lock_line @ newline))\<rparr>)
   \<and> feed (chars bad_hour_line @ [Str newline]) example_manager =
       Inl (ValueError, example_manager)"
proof -
  have b: "watcher_read_buf example_manager = Some []"
    by (simp add: example_manager_def)
  have p1: "split1 bad_hour_line = [''BLANK'', ''Mon Jan 01 25:00:00 2024'']"
    by code_simp
  have p2: "strptime_datetime (strip ''Mon Jan 01 25:00:00 2024'') = None"
    by code_simp
  note f1 = feed_bytes [OF b, of "bad_hour_line @ newline"]
  have "watcher_read_buf
      (example_manager\<lparr>watcher_read_buf := Some (bytes_of (bad_hour_line @ newline))\<rparr>) =
      Some (bytes_of (bad_hour_line @ newline))"
    by simp
  note f2 = feed_bytes [OF this, of "lock_line @ newline"]
  have f3: "feed (chars bad_hour_line @ [Str newline]) example_manager =
       Inl (ValueError, example_manager)"
    by code_simp
  from p1 p2 f1 f2 f3 show ?thesis by simp
qed

section \<open>The initial query at activation\<close>

text \<open>The part of claim C9 that holds: output that does not match gives the defaults.\<close>

lemma query_state_defaults:
  assumes "time_output env = Some out" and "re_search out = None"
  shows "query_state env m = Inr
        (m\<lparr>active := Some False, active_since := Some (now env), locked := Some False,
          trace := trace m @ [Command ''time'']\<rparr>)"
  using assms by (simp add: query_state_def do_command_def effect_def Let_def)

lemma activate_without_output:
  assumes "xss_spawns env" and "time_output env = None"
  shows "\<exists>m'. activate env m = Inl (AttributeError, m')"
  using assms by (simp add: activate_def query_state_def Let_def)

text \<open>
  Claim C9 is that activation does not crash on any output of the \<^verbatim>\<open>time\<close> query. On the
  code it raises in two cases. When \<^verbatim>\<open>_do_command\<close> returns \<^verbatim>\<open>None\<close> (the helper could not
  be run, or a signal ended it), \<^verbatim>\<open>.decode\<close> raises \<^verbatim>\<open>AttributeError\<close>. When the output
  matches the pattern but what follows \<^verbatim>\<open>since\<close> is not a timestamp, \<^verbatim>\<open>strptime\<close> raises
  \<^verbatim>\<open>ValueError\<close>. Neither is caught, so \<^verbatim>\<open>activate\<close> ends with the exception.
\<close>

theorem activate_raises_on_query_output:
  "activate (example_env\<lparr>time_output := None\<rparr>) (XScreenSaverManager False) =
     Inl (AttributeError,
          (XScreenSaverManager False)
            \<lparr>active := Some False, active_since := Some (now example_env),
             locked := Some False, trace := [Popen ''xscreensaver'', Command ''time'']\<rparr>)
   \<and> re_search ''XScreenSaver 5.15: screen locked since yesterday'' =
       Some (''locked'', ''yesterday'')
   \<and> activate (example_env\<lparr>time_output :=
               Some ''XScreenSaver 5.15: screen locked since yesterday''\<rparr>)
        (XScreenSaverManager False) =
     Inl (ValueError,
          (XScreenSaverManager False)
            \<lparr>active := Some True, active_since := Some (now example_env),
             locked := Some False, trace := [Popen ''xscreensaver'', Command ''time'']\<rparr>)"
  by code_simp


section \<open>The active time\<close>

lemma datetime_sub_total:
  "datetime_sub a b =
     \<lparr>days = (datetime_micros a - datetime_micros b) div 86400000000,
      seconds = ((datetime_micros a - datetime_micros b) div 1000000) mod 86400,
      microseconds = (datetime_micros a - datetime_micros b) mod 1000000\<rparr>"
proof -
  have "((toordinal a - toordinal b) * 86400
          + ((second a + minute a * 60 + hour a * 3600) - (second b + minute b * 60 + hour b * 3600)))
          * 1000000 + (microsecond a - microsecond b)
        = datetime_micros a - datetime_micros b"
    by (simp add: datetime_micros_def algebra_simps)
  then show ?thesis
    by (simp add: datetime_sub_def make_timedelta_def Let_def)
qed

text \<open>
  What \<^verbatim>\<open>active_time\<close> returns while the screen is active, in terms of the elapsed
  seconds \<open>e\<close>: the seconds within the current day plus 3600 for every full day.
\<close>

lemma active_time_value:
  assumes "active m = Some True" and "active_since m = Some since"
  shows "active_time now_dt m =
     Inr (elapsed_seconds since now_dt mod 86400 + (elapsed_seconds since now_dt div 86400) * 3600)"
proof -
  define d where "d = datetime_micros now_dt - datetime_micros since"
  have "d div 86400000000 = (d div 1000000) div 86400"
    by (simp add: zdiv_zmult2_eq)
  then show ?thesis
    using assms
    by (simp add: active_time_def truthy_def datetime_sub_total elapsed_seconds_def d_def Let_def)
qed

text \<open>Within the first day it is the elapsed time, and it is 0 while the screen is not active.\<close>

lemma active_time_within_a_day:
  assumes "active m = Some True" and "active_since m = Some since"
    and "0 \<le> elapsed_seconds since now_dt" and "elapsed_seconds since now_dt < 86400"
  shows "active_time now_dt m = Inr (elapsed_seconds since now_dt)"
  using assms(3,4) by (simp add: active_time_value [OF assms(1,2)])

lemma active_time_inactive:
  assumes "active m \<noteq> Some True"
  shows "active_time now_dt m = Inr 0"
  using assms by (simp add: active_time_def truthy_def)

text \<open>
  Claim C8 is that \<^verbatim>\<open>active_time\<close> is the elapsed time since \<open>active_since\<close> whenever the
  screen is active. The code adds 3600 seconds for each day of the difference instead of
  86400: a screen blanked at 10:00:00 on 1 January 2024 has been active for 86400
  seconds at 10:00:00 on 2 January, and \<^verbatim>\<open>active_time\<close> then returns 3600. After 90
  seconds it returns 90.
\<close>

theorem active_time_after_a_day:
  "active blanked_manager = Some True
   \<and> active_since blanked_manager = Some ten_o_clock
   \<and> elapsed_seconds ten_o_clock (ten_o_clock\<lparr>day := 2\<rparr>) = 86400
   \<and> active_time (ten_o_clock\<lparr>day := 2\<rparr>) blanked_manager = Inr 3600
   \<and> elapsed_seconds ten_o_clock (ten_o_clock\<lparr>minute := 1, second := 30\<rparr>) = 90
   \<and> active_time (ten_o_clock\<lparr>minute := 1, second := 30\<rparr>) blanked_manager = Inr 90"
  by code_simp


end
